theory Spec2Isabelle
  imports Main "HOL-Library.Signed_Division"
begin

section \<open>Common types\<close>

text \<open>
  Modelled from the spec: \<open>LayoutUnit\<close> is declared in \<open>platform/geometry/layout_unit.h\<close>,
  which is not among the sources. The spec calls it a "layout unit, e.g. a signed
  fixed-point" coordinate. It is represented by its raw integer value; sums and
  differences are exact (the values stay inside the representable range),
  \<open>LayoutUnit()\<close> is \<open>0\<close>, \<open>LayoutUnit::Max()\<close> is the largest raw value of the 32-bit
  storage, and dividing by the integer \<open>2\<close> rounds the raw value towards zero, as C++
  integer division does.
\<close>

type_synonym LayoutUnit = int

definition LayoutUnit_Max :: LayoutUnit where
  "LayoutUnit_Max = 2 ^ 31 - 1"

definition LayoutUnit_half :: "LayoutUnit \<Rightarrow> LayoutUnit" where
  "LayoutUnit_half x = x sdiv 2"

text \<open>
  The ways a call can stop instead of returning. \<open>CHECK\<close> macros and the bounds checks of
  \<open>Vector::operator[]\<close> and \<open>base::span::subspan\<close> abort the process in every build.
  Dereferencing the end iterator that \<open>std::min_element\<close> / \<open>std::max_element\<close> return for
  an empty range has no defined behaviour. \<open>DCHECK\<close>s are compiled out of release builds:
  the model is the release build, and every \<open>DCHECK\<close> of the source is recorded as a
  comment at its place.
\<close>

datatype failure = CHECK_failure | Undefined_behaviour

text \<open>
  \<open>wtf_size_t\<close> is a 32-bit unsigned integer. Vector sizes and indices are natural numbers
  below \<open>2 ^ 32\<close>; a subtraction that can go below zero is written with its wrap-around.
\<close>

definition wtf_size_sub :: "nat \<Rightarrow> nat \<Rightarrow> nat" where
  "wtf_size_sub a b = (if b \<le> a then a - b else a + 2 ^ 32 - b)"

definition wtf_size_add :: "nat \<Rightarrow> nat \<Rightarrow> nat" where
  "wtf_size_add a b = (a + b) mod 2 ^ 32"

text \<open>
  Modelled from the spec: \<open>GridSpan\<close> is declared in \<open>core/style/grid_area.h\<close>, which is
  not among the sources. The spec's track span is "a half-open integer range
  \<open>[start, end)\<close> over grid/flex tracks"; \<open>++span\<close> moves both lines one track forward.
\<close>

record GridSpan =
  start_line :: nat
  end_line :: nat

definition TranslatedDefiniteGridSpan :: "nat \<Rightarrow> nat \<Rightarrow> GridSpan" where
  "TranslatedDefiniteGridSpan s e = \<lparr>start_line = s, end_line = e\<rparr>"

definition StartLine :: "GridSpan \<Rightarrow> nat" where
  "StartLine span = start_line span"

definition EndLine :: "GridSpan \<Rightarrow> nat" where
  "EndLine span = end_line span"

definition IntegerSpan :: "GridSpan \<Rightarrow> nat" where
  "IntegerSpan span = end_line span - start_line span"

definition SpanSize :: "GridSpan \<Rightarrow> nat" where
  "SpanSize span = IntegerSpan span"

definition GridSpan_next :: "GridSpan \<Rightarrow> GridSpan" where
  "GridSpan_next span = \<lparr>start_line = Suc (start_line span), end_line = Suc (end_line span)\<rparr>"

section \<open>Masonry running positions (masonry\_running\_positions.cc)\<close>

text \<open>
  Modelled from the spec: \<open>TrackOpening\<close> is declared in \<open>masonry_running_positions.h\<close>,
  which is not among the sources: "\<open>{start_position, end_position}\<close> on one track";
  \<open>Size()\<close> is the length of the interval.
\<close>

record TrackOpening =
  start_position :: LayoutUnit
  end_position :: LayoutUnit

definition Size :: "TrackOpening \<Rightarrow> LayoutUnit" where
  "Size opening = end_position opening - start_position opening"

text \<open>The members of \<open>MasonryRunningPositions\<close> that the functions below read and write.\<close>

record MasonryRunningPositions =
  running_positions :: "LayoutUnit list"
  track_collection_openings :: "TrackOpening list list"
  track_collection_sizes :: "LayoutUnit list"
  auto_placement_cursor :: nat
  tie_threshold :: LayoutUnit
  is_dense_packing :: bool

subsection \<open>GetMaxPositionForSpan\<close>

definition GetMaxPositionForSpan :: "MasonryRunningPositions \<Rightarrow> GridSpan \<Rightarrow> failure + LayoutUnit" where
  "GetMaxPositionForSpan st span =
     \<comment> \<open>DCHECK_LE(span.EndLine(), running_positions_.size())\<close>
     (let rp = running_positions st; offset = StartLine span; count = IntegerSpan span in
      \<comment> \<open>\<open>subspan(offset, count)\<close> checks \<open>offset \<le> size\<close> and \<open>count \<le> size - offset\<close>\<close>
      if length rp < offset \<or> length rp - offset < count then Inl CHECK_failure
      else (case take count (drop offset rp) of
              [] \<Rightarrow> Inl Undefined_behaviour
            | x # xs \<Rightarrow> Inr (fold max xs x)))"

subsection \<open>GetMaxPositionsForAllTracks\<close>

function max_positions_loop ::
  "MasonryRunningPositions \<Rightarrow> nat \<Rightarrow> GridSpan \<Rightarrow> LayoutUnit list \<Rightarrow> failure + LayoutUnit list" where
  "max_positions_loop st first_non_fit_start_line span max_running_positions =
     (if StartLine span < first_non_fit_start_line then
        (case GetMaxPositionForSpan st span of
           Inl e \<Rightarrow> Inl e
         | Inr m \<Rightarrow> max_positions_loop st first_non_fit_start_line (GridSpan_next span)
                      (max_running_positions @ [m]))
      else Inr max_running_positions)"
  by pat_completeness auto
termination
  by (relation "measure (\<lambda>(st, n, span, acc). n - start_line span)")
     (auto simp: StartLine_def GridSpan_next_def)

declare max_positions_loop.simps [simp del]

definition GetMaxPositionsForAllTracks :: "MasonryRunningPositions \<Rightarrow> nat \<Rightarrow> failure + LayoutUnit list" where
  "GetMaxPositionsForAllTracks st span_size =
     (if span_size = 1 then Inr (running_positions st)
      else
        (let first_non_fit_start_line =
               wtf_size_add (wtf_size_sub (length (running_positions st)) span_size) 1
         in max_positions_loop st first_non_fit_start_line
              (TranslatedDefiniteGridSpan 0 span_size) []))"

subsection \<open>GetFirstEligibleLine\<close>

text \<open>
  The lambda \<open>FindPositionWithinThreshold\<close>; its result \<open>kNotFound\<close> is \<open>None\<close>.
\<close>

function FindPositionWithinThreshold :: "LayoutUnit list \<Rightarrow> LayoutUnit \<Rightarrow> nat \<Rightarrow> nat option" where
  "FindPositionWithinThreshold max_running_positions largest_allowed i =
     (if i < length max_running_positions then
        (if max_running_positions ! i \<le> largest_allowed then Some i
         else FindPositionWithinThreshold max_running_positions largest_allowed (Suc i))
      else None)"
  by pat_completeness auto
termination
  by (relation "measure (\<lambda>(xs, t, i). length xs - i)") auto

declare FindPositionWithinThreshold.simps [simp del]

text \<open>
  The result is the returned span together with the value written to the output
  parameter \<open>max_running_position\<close>.
\<close>

definition GetFirstEligibleLine ::
  "MasonryRunningPositions \<Rightarrow> nat \<Rightarrow> failure + (GridSpan \<times> LayoutUnit)" where
  "GetFirstEligibleLine st span_size =
     \<comment> \<open>DCHECK_LE(span_size, running_positions_.size());
         DCHECK_LE(auto_placement_cursor_, running_positions_.size())\<close>
     (case GetMaxPositionsForAllTracks st span_size of
        Inl e \<Rightarrow> Inl e
      | Inr max_running_positions \<Rightarrow>
          (case max_running_positions of
             [] \<Rightarrow> Inl Undefined_behaviour
           | m # ms \<Rightarrow>
               (let largest_max_running_position_allowed = fold min ms m + tie_threshold st;
                    first_eligible_line =
                      (case FindPositionWithinThreshold max_running_positions
                              largest_max_running_position_allowed (auto_placement_cursor st) of
                         None \<Rightarrow> FindPositionWithinThreshold max_running_positions
                                   largest_max_running_position_allowed 0
                       | Some i \<Rightarrow> Some i)
                in
                \<comment> \<open>DCHECK_NE(first_eligible_line, kNotFound); the index below is checked\<close>
                (case first_eligible_line of
                   None \<Rightarrow> Inl CHECK_failure
                 | Some l \<Rightarrow>
                     Inr (TranslatedDefiniteGridSpan l (l + span_size),
                          max_running_positions ! l)))))"

subsection \<open>UpdateRunningPositionsForSpan\<close>

function update_tracks_loop ::
  "nat \<Rightarrow> nat \<Rightarrow> LayoutUnit \<Rightarrow> LayoutUnit option \<Rightarrow> MasonryRunningPositions
   \<Rightarrow> failure + MasonryRunningPositions" where
  "update_tracks_loop track_idx end_ln new_running_position max_running_position_for_span st =
     (if track_idx < end_ln then
        (let current_running_position = running_positions st ! track_idx;
             recorded =
               (case max_running_position_for_span of
                  None \<Rightarrow> Inr st
                | Some mx \<Rightarrow>
                    if current_running_position < mx then
                      \<comment> \<open>DCHECK(is_dense_packing_)\<close>
                      (if track_idx < length (track_collection_openings st) then
                         Inr (st\<lparr>track_collection_openings :=
                                (track_collection_openings st)
                                  [track_idx := track_collection_openings st ! track_idx @
                                     [\<lparr>start_position = current_running_position,
                                       end_position = mx\<rparr>]]\<rparr>)
                       else Inl CHECK_failure)
                    else Inr st)
         in (case recorded of
               Inl e \<Rightarrow> Inl e
             | Inr st1 \<Rightarrow>
                 update_tracks_loop (Suc track_idx) end_ln new_running_position
                   max_running_position_for_span
                   (st1\<lparr>running_positions :=
                          (running_positions st1)[track_idx := new_running_position]\<rparr>)))
      else Inr st)"
  by pat_completeness auto
termination
  by (relation "measure (\<lambda>(i, e, n, m, st). e - i)") auto

declare update_tracks_loop.simps [simp del]

definition UpdateRunningPositionsForSpan ::
  "MasonryRunningPositions \<Rightarrow> GridSpan \<Rightarrow> LayoutUnit \<Rightarrow> LayoutUnit option
   \<Rightarrow> failure + MasonryRunningPositions" where
  "UpdateRunningPositionsForSpan st span new_running_position max_running_position_for_span =
     (let end_ln = EndLine span in
      if length (running_positions st) < end_ln then Inl CHECK_failure
      else update_tracks_loop (StartLine span) end_ln new_running_position
             max_running_position_for_span st)"

subsection \<open>CalculateUsedTrackSize\<close>

definition CalculateUsedTrackSize :: "MasonryRunningPositions \<Rightarrow> GridSpan \<Rightarrow> failure + LayoutUnit" where
  "CalculateUsedTrackSize st span =
     (let end_ln = EndLine span in
      if length (track_collection_sizes st) < end_ln then Inl CHECK_failure
      else Inr (foldl (\<lambda>used_track_size line. used_track_size + track_collection_sizes st ! line)
                  0 [StartLine span..<end_ln]))"

subsection \<open>AccumulateTrackOpeningsToAccommodateItem\<close>

text \<open>
  Modelled from the spec: \<open>EligibleTrackOpeningPath\<close> is declared in
  \<open>masonry_running_positions.h\<close>, which is not among the sources. The spec describes it as
  "the starting track index, a \<open>start_position\<close>, and the list of per-track opening
  indices consumed", "valid iff a position was found", the invalid result being an "unset
  optional/boolean flag on the result struct" and reading as the "zero/default" position.
  The position is therefore an optional value: \<open>IsValid\<close> holds when it is set, and reading
  the position of an invalid path gives \<open>LayoutUnit()\<close>.
\<close>

record EligibleTrackOpeningPath =
  starting_track_index :: nat
  path_start_position :: "LayoutUnit option"
  track_opening_indices :: "nat list"

definition new_EligibleTrackOpeningPath :: EligibleTrackOpeningPath where
  "new_EligibleTrackOpeningPath =
     \<lparr>starting_track_index = 0, path_start_position = None, track_opening_indices = []\<rparr>"

definition IsValid :: "EligibleTrackOpeningPath \<Rightarrow> bool" where
  "IsValid path \<longleftrightarrow> path_start_position path \<noteq> None"

definition start_position_of :: "EligibleTrackOpeningPath \<Rightarrow> LayoutUnit" where
  "start_position_of path = (case path_start_position path of None \<Rightarrow> 0 | Some p \<Rightarrow> p)"

text \<open>
  The function and the loop over the openings of its track, which calls the function again
  for the next track. The reference parameter \<open>eligible_track_opening_result\<close> is passed in
  and returned; the function also returns its boolean result.
\<close>

function AccumulateTrackOpeningsToAccommodateItem ::
    "MasonryRunningPositions \<Rightarrow> LayoutUnit \<Rightarrow> LayoutUnit \<Rightarrow> LayoutUnit \<Rightarrow> nat \<Rightarrow> nat
     \<Rightarrow> EligibleTrackOpeningPath \<Rightarrow> failure + (bool \<times> EligibleTrackOpeningPath)"
  and accumulate_loop ::
    "MasonryRunningPositions \<Rightarrow> LayoutUnit \<Rightarrow> LayoutUnit \<Rightarrow> LayoutUnit \<Rightarrow> nat \<Rightarrow> nat \<Rightarrow> nat
     \<Rightarrow> EligibleTrackOpeningPath \<Rightarrow> failure + EligibleTrackOpeningPath"
where
  "AccumulateTrackOpeningsToAccommodateItem st item_stacking_axis_contribution
       previous_track_opening_start_position previous_track_opening_end_position
       num_tracks_remaining track_to_check_for_openings eligible_track_opening_result =
     (if \<not> track_to_check_for_openings < length (track_collection_openings st)
      then Inl CHECK_failure
      else
        (case accumulate_loop st item_stacking_axis_contribution
                previous_track_opening_start_position previous_track_opening_end_position
                num_tracks_remaining track_to_check_for_openings 0
                eligible_track_opening_result of
           Inl e \<Rightarrow> Inl e
         | Inr r \<Rightarrow> Inr (IsValid r, r)))"
| "accumulate_loop st item_stacking_axis_contribution
       previous_track_opening_start_position previous_track_opening_end_position
       num_tracks_remaining track_to_check_for_openings i eligible_track_opening_result =
     (if track_to_check_for_openings < length (track_collection_openings st) \<and>
         i < length (track_collection_openings st ! track_to_check_for_openings)
      then
        (let current_track_opening =
               track_collection_openings st ! track_to_check_for_openings ! i;
             overlap_start_position =
               max previous_track_opening_start_position (start_position current_track_opening);
             overlap_end_position =
               min previous_track_opening_end_position (end_position current_track_opening);
             overlap_range_size = overlap_end_position - overlap_start_position
         in
         if overlap_range_size \<ge> item_stacking_axis_contribution then
           (case (if num_tracks_remaining = 0 then Inr (True, eligible_track_opening_result)
                  else AccumulateTrackOpeningsToAccommodateItem st
                         item_stacking_axis_contribution overlap_start_position
                         overlap_end_position (num_tracks_remaining - 1)
                         (track_to_check_for_openings + 1) eligible_track_opening_result) of
              Inl e \<Rightarrow> Inl e
            | Inr (found, r) \<Rightarrow>
                if found then
                  \<comment> \<open>inside the test below: DCHECK_EQ(num_tracks_remaining, 0u); then \<open>break\<close>\<close>
                  (let r1 = (if \<not> IsValid r
                             then r\<lparr>path_start_position := Some overlap_start_position\<rparr>
                             else r)
                   in Inr (r1\<lparr>track_opening_indices := track_opening_indices r1 @ [i]\<rparr>))
                else accumulate_loop st item_stacking_axis_contribution
                       previous_track_opening_start_position
                       previous_track_opening_end_position num_tracks_remaining
                       track_to_check_for_openings (Suc i) r)
         else accumulate_loop st item_stacking_axis_contribution
                previous_track_opening_start_position previous_track_opening_end_position
                num_tracks_remaining track_to_check_for_openings (Suc i)
                eligible_track_opening_result)
      else Inr eligible_track_opening_result)"
  by pat_completeness auto
termination
  by (relation "inv_image (less_than <*lex*> less_than <*lex*> less_than)
        (\<lambda>x. case x of
           Inl (st, s, ps, pe, n, t, r) \<Rightarrow> (n, 1, 0)
         | Inr (st, s, ps, pe, n, t, i, r) \<Rightarrow>
             (n, 0, length (track_collection_openings st ! t) - i))")
     auto

declare AccumulateTrackOpeningsToAccommodateItem.simps [simp del]
declare accumulate_loop.simps [simp del]

subsection \<open>GetEligibleTrackOpeningAndUpdateMasonryItemSpan\<close>

text \<open>
  Modelled from the spec: \<open>GridItemData\<close> is declared in \<open>grid/grid_item.h\<close>, which is not
  among the sources. Of the item the function reads "whether it is auto-placed" and its
  resolved span in the grid axis, and \<open>UpdateSpan\<close> "mutates the item's resolved span to the
  winning span". The track collection argument only supplies the axis direction, and
  \<open>start_offset\<close> is only handed on to \<open>UpdateSpan\<close>; neither is a parameter of the model.
\<close>

record GridItemData =
  is_auto_placed :: bool
  resolved_span :: GridSpan

definition UpdateSpan :: "GridItemData \<Rightarrow> GridSpan \<Rightarrow> GridItemData" where
  "UpdateSpan masonry_item span = masonry_item\<lparr>resolved_span := span\<rparr>"

text \<open>The \<open>while\<close> loop over the candidate spans.\<close>

function highest_eligible_loop ::
  "MasonryRunningPositions \<Rightarrow> GridItemData \<Rightarrow> LayoutUnit \<Rightarrow> GridSpan \<Rightarrow> nat \<Rightarrow> LayoutUnit
   \<Rightarrow> GridSpan \<Rightarrow> EligibleTrackOpeningPath \<Rightarrow> failure + EligibleTrackOpeningPath" where
  "highest_eligible_loop st masonry_item item_stacking_axis_contribution initial_span span_size
       used_track_size item_span highest_eligible_track_opening_result =
     (if EndLine item_span \<le> length (running_positions st) then
        (if \<not> is_auto_placed masonry_item \<and> item_span \<noteq> initial_span
         then Inr highest_eligible_track_opening_result
         else
           (case CalculateUsedTrackSize st item_span of
              Inl e \<Rightarrow> Inl e
            | Inr size_of_span \<Rightarrow>
                if size_of_span \<noteq> used_track_size then
                  highest_eligible_loop st masonry_item item_stacking_axis_contribution
                    initial_span span_size used_track_size (GridSpan_next item_span)
                    highest_eligible_track_opening_result
                else
                  (let current_track = StartLine item_span in
                   if \<not> current_track < length (track_collection_openings st)
                   then Inl CHECK_failure
                   else if track_collection_openings st ! current_track = [] \<or>
                           (IsValid highest_eligible_track_opening_result \<and>
                            start_position (track_collection_openings st ! current_track ! 0)
                              \<ge> start_position_of highest_eligible_track_opening_result)
                   then highest_eligible_loop st masonry_item item_stacking_axis_contribution
                          initial_span span_size used_track_size (GridSpan_next item_span)
                          highest_eligible_track_opening_result
                   else
                     (case AccumulateTrackOpeningsToAccommodateItem st
                             item_stacking_axis_contribution 0 LayoutUnit_Max
                             (wtf_size_sub span_size 1) current_track
                             new_EligibleTrackOpeningPath of
                        Inl e \<Rightarrow> Inl e
                      | Inr (found, eligible_track_opening_result) \<Rightarrow>
                          highest_eligible_loop st masonry_item item_stacking_axis_contribution
                            initial_span span_size used_track_size (GridSpan_next item_span)
                            (if IsValid eligible_track_opening_result \<and>
                                (\<not> IsValid highest_eligible_track_opening_result \<or>
                                 start_position_of eligible_track_opening_result
                                   < start_position_of highest_eligible_track_opening_result)
                             then eligible_track_opening_result
                                    \<lparr>starting_track_index := current_track\<rparr>
                             else highest_eligible_track_opening_result)))))
      else Inr highest_eligible_track_opening_result)"
  by pat_completeness auto
termination
  by (relation "measure (\<lambda>(st, it, s, ini, sz, u, span, h).
                   Suc (length (running_positions st)) - end_line span)")
     (auto simp: EndLine_def GridSpan_next_def)

declare highest_eligible_loop.simps [simp del]

text \<open>\<open>Vector::EraseAt\<close> and \<open>Vector::insert\<close> at a position.\<close>

definition EraseAt :: "'a list \<Rightarrow> nat \<Rightarrow> 'a list" where
  "EraseAt xs position = take position xs @ drop (Suc position) xs"

definition insert_at :: "'a list \<Rightarrow> nat \<Rightarrow> 'a \<Rightarrow> 'a list" where
  "insert_at xs position x = take position xs @ x # drop position xs"

text \<open>
  The range-\<open>for\<close> loop over \<open>track_opening_indices\<close> that removes or adjusts the consumed
  openings; \<open>current_track_index\<close> is decremented at the head of each round.
\<close>

fun consume_openings_loop ::
  "TrackOpening list list \<Rightarrow> LayoutUnit \<Rightarrow> LayoutUnit \<Rightarrow> nat \<Rightarrow> nat list
   \<Rightarrow> failure + TrackOpening list list" where
  "consume_openings_loop openings item_stacking_axis_contribution highest_start
       current_track_index [] = Inr openings"
| "consume_openings_loop openings item_stacking_axis_contribution highest_start
       current_track_index (track_opening_index # rest) =
     (let track_index = wtf_size_sub current_track_index 1 in
      if \<not> track_index < length openings then Inl CHECK_failure
      else if \<not> track_opening_index < length (openings ! track_index) then Inl CHECK_failure
      else
        (let current_track_opening = openings ! track_index ! track_opening_index in
         if item_stacking_axis_contribution = Size current_track_opening then
           consume_openings_loop
             (openings[track_index := EraseAt (openings ! track_index) track_opening_index])
             item_stacking_axis_contribution highest_start track_index rest
         else
           (let (track_openings, opening_index) =
                  (if start_position current_track_opening \<noteq> highest_start then
                     (insert_at (openings ! track_index) track_opening_index
                        \<lparr>start_position = start_position current_track_opening,
                         end_position = highest_start\<rparr>,
                      Suc track_opening_index)
                   else (openings ! track_index, track_opening_index))
            in consume_openings_loop
                 (openings[track_index :=
                    track_openings[opening_index :=
                      (track_openings ! opening_index)
                        \<lparr>start_position := start_position current_track_opening
                                             + item_stacking_axis_contribution\<rparr>]])
                 item_stacking_axis_contribution highest_start track_index rest)))"

text \<open>
  The result is the returned start position, the object with its updated openings, and
  the item with its updated span.
\<close>

definition GetEligibleTrackOpeningAndUpdateMasonryItemSpan ::
  "MasonryRunningPositions \<Rightarrow> GridItemData \<Rightarrow> LayoutUnit
   \<Rightarrow> failure + (LayoutUnit \<times> MasonryRunningPositions \<times> GridItemData)" where
  "GetEligibleTrackOpeningAndUpdateMasonryItemSpan st masonry_item
       item_stacking_axis_contribution =
     \<comment> \<open>DCHECK(is_dense_packing_)\<close>
     (let initial_span = resolved_span masonry_item;
          span_size = SpanSize initial_span
      in case CalculateUsedTrackSize st initial_span of
           Inl e \<Rightarrow> Inl e
         | Inr used_track_size \<Rightarrow>
             (let item_span = (if is_auto_placed masonry_item
                               then TranslatedDefiniteGridSpan 0 span_size
                               else initial_span)
              in case highest_eligible_loop st masonry_item item_stacking_axis_contribution
                        initial_span span_size used_track_size item_span
                        new_EligibleTrackOpeningPath of
                   Inl e \<Rightarrow> Inl e
                 | Inr highest \<Rightarrow>
                     if IsValid highest then
                       (case consume_openings_loop (track_collection_openings st)
                               item_stacking_axis_contribution (start_position_of highest)
                               (starting_track_index highest + span_size)
                               (track_opening_indices highest) of
                          Inl e \<Rightarrow> Inl e
                        | Inr openings \<Rightarrow>
                            \<comment> \<open>DCHECK_EQ of the two span sizes\<close>
                            Inr (start_position_of highest,
                                 st\<lparr>track_collection_openings := openings\<rparr>,
                                 UpdateSpan masonry_item
                                   (TranslatedDefiniteGridSpan (starting_track_index highest)
                                      (starting_track_index highest + span_size))))
                     else Inr (start_position_of highest, st, masonry_item)))"

section \<open>Flex gap accumulator (flex\_gap\_accumulator.cc)\<close>

text \<open>
  Modelled from the spec: \<open>LogicalOffset\<close>, \<open>BoxStrut\<close>, \<open>BoxFragmentBuilder\<close>, \<open>FlexLine\<close>,
  \<open>MainGap\<close>, \<open>CrossGap\<close> and \<open>GapGeometry\<close> are declared in headers that are not among the
  sources (\<open>flex_line.h\<close>, \<open>box_fragment_builder.h\<close>, \<open>gap/gap_geometry.h\<close>). Each is a
  record of the members that \<open>flex_gap_accumulator.cc\<close> reads or writes. A \<open>CrossGap\<close> is a
  gap offset plus "which edge it touches (none/start/end/both)"; a \<open>MainGap\<close> is a gap
  offset plus "the range of CrossGap indices that occur before/after it", and
  incrementing a range extends it to the given index.
\<close>

record LogicalOffset =
  inline_offset :: LayoutUnit
  block_offset :: LayoutUnit

record BoxStrut =
  inline_start :: LayoutUnit
  inline_end :: LayoutUnit
  block_start :: LayoutUnit
  block_end :: LayoutUnit

record BoxFragmentBuilder =
  BorderScrollbarPadding :: BoxStrut
  InitialBorderBoxSize_block_size :: LayoutUnit
  InlineSize :: LayoutUnit

record FlexLine =
  item_indices :: "nat list"
  cross_axis_offset :: LayoutUnit

datatype EdgeIntersectionState = kNone | kStart | kEnd | kBoth

record CrossGap =
  GetGapOffset :: LogicalOffset
  GetEdgeIntersectionState :: EdgeIntersectionState

record MainGap =
  GetGapOffset_main :: LayoutUnit
  RangeOfCrossGapsBefore :: "(nat \<times> nat) option"
  RangeOfCrossGapsAfter :: "(nat \<times> nat) option"

definition MainGap_of_offset :: "LayoutUnit \<Rightarrow> MainGap" where
  "MainGap_of_offset gap_offset =
     \<lparr>GetGapOffset_main = gap_offset, RangeOfCrossGapsBefore = None,
      RangeOfCrossGapsAfter = None\<rparr>"

definition increment_range :: "(nat \<times> nat) option \<Rightarrow> nat \<Rightarrow> (nat \<times> nat) option" where
  "increment_range cross_gap_range cross_gap_index =
     (case cross_gap_range of None \<Rightarrow> Some (cross_gap_index, cross_gap_index)
      | Some (first, lst) \<Rightarrow> Some (first, cross_gap_index))"

definition IncrementRangeOfCrossGapsBefore :: "MainGap \<Rightarrow> nat \<Rightarrow> MainGap" where
  "IncrementRangeOfCrossGapsBefore main_gap cross_gap_index =
     main_gap\<lparr>RangeOfCrossGapsBefore :=
                increment_range (RangeOfCrossGapsBefore main_gap) cross_gap_index\<rparr>"

definition IncrementRangeOfCrossGapsAfter :: "MainGap \<Rightarrow> nat \<Rightarrow> MainGap" where
  "IncrementRangeOfCrossGapsAfter main_gap cross_gap_index =
     main_gap\<lparr>RangeOfCrossGapsAfter :=
                increment_range (RangeOfCrossGapsAfter main_gap) cross_gap_index\<rparr>"

datatype GridTrackSizingDirection = kForColumns | kForRows

datatype ContainerType = kGrid | kFlex | kMultiColumn

record GapGeometry =
  GetContainerType :: ContainerType
  GetInlineGapSize :: LayoutUnit
  GetBlockGapSize :: LayoutUnit
  GetMainDirection :: GridTrackSizingDirection
  GetCrossGaps :: "CrossGap list"
  GetMainGaps :: "MainGap list"
  ContentInlineStart :: LayoutUnit
  ContentInlineEnd :: LayoutUnit
  ContentBlockStart :: LayoutUnit
  ContentBlockEnd :: LayoutUnit

text \<open>\<open>MakeGarbageCollected<GapGeometry>(container_type)\<close>: no gap sizes, no gaps, rows as the
  main direction.\<close>

definition new_GapGeometry :: "ContainerType \<Rightarrow> GapGeometry" where
  "new_GapGeometry container_type =
     \<lparr>GetContainerType = container_type, GetInlineGapSize = 0, GetBlockGapSize = 0,
      GetMainDirection = kForRows, GetCrossGaps = [], GetMainGaps = [],
      ContentInlineStart = 0, ContentInlineEnd = 0, ContentBlockStart = 0,
      ContentBlockEnd = 0\<rparr>"

text \<open>The members of \<open>FlexGapAccumulator\<close> (flex\_gap\_accumulator.h).\<close>

record FlexGapAccumulator =
  gap_between_items :: LayoutUnit
  gap_between_lines :: LayoutUnit
  container_builder :: BoxFragmentBuilder
  is_column :: bool
  main_gaps :: "MainGap list"
  cross_gaps :: "CrossGap list"
  content_cross_start :: LayoutUnit
  content_cross_end :: LayoutUnit
  content_main_start :: LayoutUnit
  content_main_end :: LayoutUnit

text \<open>The constructor; the two "reserve" arguments \<open>num_lines\<close> and \<open>num_flex_items\<close> only
  size the storage.\<close>

definition new_FlexGapAccumulator ::
  "LayoutUnit \<Rightarrow> LayoutUnit \<Rightarrow> BoxFragmentBuilder \<Rightarrow> bool \<Rightarrow> FlexGapAccumulator" where
  "new_FlexGapAccumulator between_items between_lines builder column =
     \<lparr>gap_between_items = between_items, gap_between_lines = between_lines,
      container_builder = builder, is_column = column, main_gaps = [], cross_gaps = [],
      content_cross_start = 0, content_cross_end = 0, content_main_start = 0,
      content_main_end = 0\<rparr>"

subsection \<open>BuildGapGeometry\<close>

text \<open>
  The result is the returned pointer (\<open>None\<close> for \<open>nullptr\<close>) and the accumulator, whose gap
  vectors are empty once they have been moved into the geometry.
\<close>

definition BuildGapGeometry :: "FlexGapAccumulator \<Rightarrow> GapGeometry option \<times> FlexGapAccumulator" where
  "BuildGapGeometry acc =
     (let has_valid_main_axis_gaps = (main_gaps acc \<noteq> [] \<and> gap_between_lines acc > 0);
          has_valid_cross_axis_gaps = (cross_gaps acc \<noteq> [] \<and> gap_between_items acc > 0)
      in
      if \<not> has_valid_main_axis_gaps \<and> \<not> has_valid_cross_axis_gaps then (None, acc)
      else
        (let g0 = new_GapGeometry kFlex;
             g1 =
               (if is_column acc then
                  (let ga = (if gap_between_lines acc > 0
                             then g0\<lparr>GetInlineGapSize := gap_between_lines acc\<rparr> else g0);
                       gb = (if gap_between_items acc > 0
                             then ga\<lparr>GetBlockGapSize := gap_between_items acc\<rparr> else ga)
                   in gb\<lparr>GetMainDirection := kForColumns\<rparr>)
                else
                  (let ga = (if gap_between_lines acc > 0
                             then g0\<lparr>GetBlockGapSize := gap_between_lines acc\<rparr> else g0)
                   in (if gap_between_items acc > 0
                       then ga\<lparr>GetInlineGapSize := gap_between_items acc\<rparr> else ga)));
             g2 = (if cross_gaps acc \<noteq> [] then g1\<lparr>GetCrossGaps := cross_gaps acc\<rparr> else g1);
             g3 = (if main_gaps acc \<noteq> [] then g2\<lparr>GetMainGaps := main_gaps acc\<rparr> else g2);
             content_inline_start =
               (if is_column acc then content_cross_start acc else content_main_start acc);
             content_inline_end =
               (if is_column acc then content_cross_end acc else content_main_end acc);
             content_block_start =
               (if is_column acc then content_main_start acc else content_cross_start acc);
             content_block_end =
               (if is_column acc then content_main_end acc else content_cross_end acc)
         in (Some (g3\<lparr>ContentInlineStart := content_inline_start,
                       ContentInlineEnd := content_inline_end,
                       ContentBlockStart := content_block_start,
                       ContentBlockEnd := content_block_end\<rparr>),
             acc\<lparr>main_gaps := [], cross_gaps := []\<rparr>)))"

subsection \<open>BuildGapsForCurrentItem and its helpers\<close>

definition PopulateMainGapForFirstItem :: "FlexGapAccumulator \<Rightarrow> LayoutUnit \<Rightarrow> FlexGapAccumulator" where
  "PopulateMainGapForFirstItem acc cross_end =
     (let gap_offset = cross_end + LayoutUnit_half (gap_between_lines acc)
      in acc\<lparr>main_gaps := main_gaps acc @ [MainGap_of_offset gap_offset]\<rparr>)"

definition HandleCrossGapRangesForCurrentItem ::
  "FlexGapAccumulator \<Rightarrow> nat \<Rightarrow> nat \<Rightarrow> failure + FlexGapAccumulator" where
  "HandleCrossGapRangesForCurrentItem acc flex_line_index cross_gap_index =
     (if main_gaps acc = [] then Inr acc
      else
        (let acc1 =
               (if flex_line_index < length (main_gaps acc) then
                  acc\<lparr>main_gaps := (main_gaps acc)
                         [flex_line_index :=
                            IncrementRangeOfCrossGapsBefore (main_gaps acc ! flex_line_index)
                              cross_gap_index]\<rparr>
                else acc)
         in
         if flex_line_index > 0 then
           \<comment> \<open>\<open>CHECK_LE(flex_line_index - 1, main_gaps_.size())\<close>, then the checked index\<close>
           (if \<not> flex_line_index - 1 \<le> length (main_gaps acc1) then Inl CHECK_failure
            else if \<not> flex_line_index - 1 < length (main_gaps acc1) then Inl CHECK_failure
            else Inr (acc1\<lparr>main_gaps := (main_gaps acc1)
                         [flex_line_index - 1 :=
                            IncrementRangeOfCrossGapsAfter (main_gaps acc1 ! (flex_line_index - 1))
                              cross_gap_index]\<rparr>))
         else Inr acc1))"

definition PopulateCrossGapForCurrentItem ::
  "FlexGapAccumulator \<Rightarrow> FlexLine \<Rightarrow> nat \<Rightarrow> bool \<Rightarrow> bool \<Rightarrow> bool \<Rightarrow> LayoutUnit \<Rightarrow> LayoutUnit
   \<Rightarrow> failure + FlexGapAccumulator" where
  "PopulateCrossGapForCurrentItem acc flex_line flex_line_index is_first_line is_last_line
       single_line main_intersection_offset cross_start =
     (let (cross_intersection_offset, edge_state) =
            (if single_line then (cross_start, kBoth)
             else if is_first_line then (cross_start, kStart)
             else if is_last_line then
               (cross_start - LayoutUnit_half (gap_between_lines acc), kEnd)
             else
               (cross_axis_offset flex_line - LayoutUnit_half (gap_between_lines acc), kNone));
          logical_offset =
            \<lparr>inline_offset =
               (if is_column acc then cross_intersection_offset else main_intersection_offset),
             block_offset =
               (if is_column acc then main_intersection_offset else cross_intersection_offset)\<rparr>;
          cross_gap = \<lparr>GetGapOffset = logical_offset, GetEdgeIntersectionState = edge_state\<rparr>;
          acc1 = acc\<lparr>cross_gaps := cross_gaps acc @ [cross_gap]\<rparr>
      in HandleCrossGapRangesForCurrentItem acc1 flex_line_index (length (cross_gaps acc1) - 1))"

definition container_main_end_of :: "FlexGapAccumulator \<Rightarrow> LayoutUnit" where
  "container_main_end_of acc =
     (let border_scrollbar_padding =
            (if is_column acc then block_end (BorderScrollbarPadding (container_builder acc))
             else inline_end (BorderScrollbarPadding (container_builder acc)))
      in if is_column acc
         then InitialBorderBoxSize_block_size (container_builder acc) - border_scrollbar_padding
         else InlineSize (container_builder acc) - border_scrollbar_padding)"

definition BuildGapsForCurrentItem ::
  "FlexGapAccumulator \<Rightarrow> FlexLine list \<Rightarrow> nat \<Rightarrow> nat \<Rightarrow> LogicalOffset \<Rightarrow> bool \<Rightarrow> bool
   \<Rightarrow> LayoutUnit \<Rightarrow> LayoutUnit \<Rightarrow> failure + FlexGapAccumulator" where
  "BuildGapsForCurrentItem acc flex_lines flex_line_index item_index_in_line item_offset
       is_first_line is_last_line line_cross_start line_cross_end =
     (if \<not> flex_line_index < length flex_lines then Inl CHECK_failure
      else
        (let flex_line = flex_lines ! flex_line_index;
             is_first_item = (item_index_in_line = 0);
             is_last_item =
               (item_index_in_line = wtf_size_sub (length (item_indices flex_line)) 1);
             single_line = (is_first_line \<and> is_last_line);
             main_offset =
               (if is_column acc then block_offset item_offset else inline_offset item_offset);
             acc1 =
               (if is_first_line \<and> is_first_item then
                  acc\<lparr>content_cross_start := line_cross_start,
                      content_main_start :=
                        min (if is_column acc
                             then block_start (BorderScrollbarPadding (container_builder acc))
                             else inline_start (BorderScrollbarPadding (container_builder acc)))
                            main_offset\<rparr>
                else acc);
             acc2 =
               (if is_last_line \<and> is_first_item then acc1\<lparr>content_cross_end := line_cross_end\<rparr>
                else acc1)
         in
         if is_first_item then
           (if \<not> single_line \<and> \<not> is_last_line then
              (let acc3 = PopulateMainGapForFirstItem acc2 line_cross_end
               in if length (item_indices flex_line) = 1
                  then Inr (acc3\<lparr>content_main_end := container_main_end_of acc3\<rparr>)
                  else Inr acc3)
            else Inr acc2)
         else
           (let main_intersection_offset = main_offset - LayoutUnit_half (gap_between_items acc2)
            in case PopulateCrossGapForCurrentItem acc2 flex_line flex_line_index is_first_line
                      is_last_line single_line main_intersection_offset line_cross_start of
                 Inl e \<Rightarrow> Inl e
               | Inr acc3 \<Rightarrow>
                   if is_last_item then
                     (let last_gap_offset =
                            (if is_column acc3
                             then block_offset (GetGapOffset (last (cross_gaps acc3)))
                             else inline_offset (GetGapOffset (last (cross_gaps acc3))))
                      in Inr (acc3\<lparr>content_main_end :=
                                      max last_gap_offset (container_main_end_of acc3)\<rparr>))
                   else Inr acc3)))"

section \<open>Gap decoration painter (gap\_decorations\_painter.cc)\<close>

text \<open>
  Modelled from the spec: \<open>RuleBreak\<close> ("\<open>kNone | kSpanningItem | kIntersection\<close>") and
  \<open>BlockedStatus\<close> (an intersection flagged "blocked before" and/or "blocked after") come
  from headers that are not among the sources. \<open>GapGeometry::GetIntersectionBlockedStatus\<close>
  is defined in \<open>gap_geometry.cc\<close>, which is not among the sources either: the functions
  below take it as the parameter \<open>blocked\<close>.
\<close>

datatype RuleBreak = RuleBreak_kNone | kSpanningItem | kIntersection

datatype BlockedFlag = kBlockedBefore | kBlockedAfter

type_synonym BlockedStatus = "BlockedFlag set"

definition HasBlockedStatus :: "BlockedStatus \<Rightarrow> BlockedFlag \<Rightarrow> bool" where
  "HasBlockedStatus status flag \<longleftrightarrow> flag \<in> status"

type_synonym blocked_status_fn =
  "GridTrackSizingDirection \<Rightarrow> nat \<Rightarrow> nat \<Rightarrow> LayoutUnit list \<Rightarrow> BlockedStatus"

definition ShouldMoveIntersectionEndForward ::
  "blocked_status_fn \<Rightarrow> GridTrackSizingDirection \<Rightarrow> nat \<Rightarrow> nat \<Rightarrow> RuleBreak \<Rightarrow> GapGeometry
   \<Rightarrow> LayoutUnit list \<Rightarrow> bool" where
  "ShouldMoveIntersectionEndForward blocked track_direction gap_index end_index rule_break
       gap_geometry intersections =
     (let blocked_status = blocked track_direction gap_index end_index intersections in
      if rule_break = kSpanningItem then \<not> HasBlockedStatus blocked_status kBlockedAfter
      else
        \<comment> \<open>DCHECK_EQ(rule_break, RuleBreak::kIntersection)\<close>
        if GetContainerType gap_geometry = kFlex then False
        else if HasBlockedStatus blocked_status kBlockedAfter then False
        else
          (let cross_direction = (if track_direction = kForColumns then kForRows else kForColumns)
           in if GetContainerType gap_geometry \<noteq> kGrid then False
              else
                (let cross_gaps_blocked_status =
                       blocked cross_direction (wtf_size_sub end_index 1)
                         (wtf_size_add gap_index 1) intersections
                 in HasBlockedStatus cross_gaps_blocked_status kBlockedAfter \<and>
                    HasBlockedStatus cross_gaps_blocked_status kBlockedBefore)))"

function advance_start ::
  "blocked_status_fn \<Rightarrow> GridTrackSizingDirection \<Rightarrow> nat \<Rightarrow> nat \<Rightarrow> LayoutUnit list \<Rightarrow> nat \<Rightarrow> nat" where
  "advance_start blocked track_direction intersection_count gap_index intersections start =
     (if start < intersection_count \<and>
         HasBlockedStatus (blocked track_direction gap_index start intersections) kBlockedAfter
      then advance_start blocked track_direction intersection_count gap_index intersections
             (Suc start)
      else start)"
  by pat_completeness auto
termination
  by (relation "measure (\<lambda>(b, d, n, g, xs, start). n - start)") auto

declare advance_start.simps [simp del]

function advance_end ::
  "blocked_status_fn \<Rightarrow> GridTrackSizingDirection \<Rightarrow> nat \<Rightarrow> nat \<Rightarrow> RuleBreak \<Rightarrow> GapGeometry
   \<Rightarrow> LayoutUnit list \<Rightarrow> nat \<Rightarrow> nat" where
  "advance_end blocked track_direction last_intersection_index gap_index rule_break gap_geometry
       intersections end_index =
     (if end_index < last_intersection_index \<and>
         ShouldMoveIntersectionEndForward blocked track_direction gap_index end_index rule_break
           gap_geometry intersections
      then advance_end blocked track_direction last_intersection_index gap_index rule_break
             gap_geometry intersections (Suc end_index)
      else end_index)"
  by pat_completeness auto
termination
  by (relation "measure (\<lambda>(b, d, n, g, r, geo, xs, e). n - e)") auto

declare advance_end.simps [simp del]

text \<open>The result is the pair of the reference parameters \<open>start\<close> and \<open>end\<close> on return.\<close>

definition AdjustIntersectionIndexPair ::
  "blocked_status_fn \<Rightarrow> GridTrackSizingDirection \<Rightarrow> nat \<Rightarrow> nat \<Rightarrow> nat \<Rightarrow> nat \<Rightarrow> RuleBreak
   \<Rightarrow> GapGeometry \<Rightarrow> LayoutUnit list \<Rightarrow> nat \<times> nat" where
  "AdjustIntersectionIndexPair blocked track_direction start end_index intersection_count
       gap_index rule_break gap_geometry intersections =
     (let last_intersection_index = wtf_size_sub intersection_count 1 in
      if rule_break = RuleBreak_kNone then (0, last_intersection_index)
      else
        (let start1 = advance_start blocked track_direction intersection_count gap_index
                        intersections start
         in if start1 = last_intersection_index then (start1, end_index)
            else (start1,
                  advance_end blocked track_direction last_intersection_index gap_index
                    rule_break gap_geometry intersections (wtf_size_add start1 1))))"

section \<open>Specification-level definitions and example inputs\<close>

subsection \<open>Eligible lines, in the words of the specification\<close>

text \<open>
  For every candidate start line \<open>i\<close> such that \<open>[i, i + span_size)\<close> fits: the maximum
  running position across that window; the global minimum of these values; the lines
  whose window maximum is at most the global minimum plus the tie threshold.
\<close>

definition spec_window_max :: "LayoutUnit list \<Rightarrow> nat \<Rightarrow> nat \<Rightarrow> LayoutUnit" where
  "spec_window_max rp span_size i = Max (set (take span_size (drop i rp)))"

definition spec_global_min :: "LayoutUnit list \<Rightarrow> nat \<Rightarrow> LayoutUnit" where
  "spec_global_min rp span_size =
     Min (spec_window_max rp span_size ` {i. i + span_size \<le> length rp})"

definition spec_tie_eligible :: "MasonryRunningPositions \<Rightarrow> nat \<Rightarrow> nat \<Rightarrow> bool" where
  "spec_tie_eligible st span_size i \<longleftrightarrow>
     i + span_size \<le> length (running_positions st) \<and>
     spec_window_max (running_positions st) span_size i
       \<le> spec_global_min (running_positions st) span_size + tie_threshold st"

text \<open>The running positions \<open>[0, 0, 5]\<close> of the specification's example, with the cursor at 1.\<close>

definition eligible_line_example :: MasonryRunningPositions where
  "eligible_line_example =
     \<lparr>running_positions = [0, 0, 5], track_collection_openings = [[], [], []],
      track_collection_sizes = [10, 10, 10], auto_placement_cursor = 1,
      tie_threshold = 0, is_dense_packing = False\<rparr>"

text \<open>A single track whose running position is 10.\<close>

definition overwrite_example :: MasonryRunningPositions where
  "overwrite_example =
     \<lparr>running_positions = [10], track_collection_openings = [[]],
      track_collection_sizes = [10], auto_placement_cursor = 0,
      tie_threshold = 0, is_dense_packing = False\<rparr>"

subsection \<open>Flex gaps: reading a cross gap, running several calls, example inputs\<close>

text \<open>Sequencing of calls that may fail: the first failure ends the run.\<close>

definition and_then :: "failure + 'a \<Rightarrow> ('a \<Rightarrow> failure + 'b) \<Rightarrow> failure + 'b" where
  "and_then r f = (case r of Inl e \<Rightarrow> Inl e | Inr x \<Rightarrow> f x)"

text \<open>
  The main-axis and the cross-axis coordinate of a \<open>CrossGap\<close>: in a row container the
  main axis is the inline axis, in a column container the block axis.
\<close>

definition gap_main_axis_offset :: "bool \<Rightarrow> CrossGap \<Rightarrow> LayoutUnit" where
  "gap_main_axis_offset column g =
     (if column then block_offset (GetGapOffset g) else inline_offset (GetGapOffset g))"

definition gap_cross_axis_offset :: "bool \<Rightarrow> CrossGap \<Rightarrow> LayoutUnit" where
  "gap_cross_axis_offset column g =
     (if column then inline_offset (GetGapOffset g) else block_offset (GetGapOffset g))"

text \<open>The midpoint between two offsets, in layout units.\<close>

definition spec_midpoint :: "LayoutUnit \<Rightarrow> LayoutUnit \<Rightarrow> LayoutUnit" where
  "spec_midpoint a b = LayoutUnit_half (a + b)"

text \<open>A container 200 wide and 120 high without border, scrollbar or padding.\<close>

definition example_builder :: BoxFragmentBuilder where
  "example_builder =
     \<lparr>BorderScrollbarPadding = \<lparr>inline_start = 0, inline_end = 0, block_start = 0, block_end = 0\<rparr>,
      InitialBorderBoxSize_block_size = 120, InlineSize = 200\<rparr>"

text \<open>An accumulator with one cross gap recorded and both gap sizes zero.\<close>

definition zero_gap_example :: FlexGapAccumulator where
  "zero_gap_example =
     (new_FlexGapAccumulator 0 0 example_builder False)
       \<lparr>cross_gaps := [\<lparr>GetGapOffset = \<lparr>inline_offset = 100, block_offset = 0\<rparr>,
                        GetEdgeIntersectionState = kBoth\<rparr>]\<rparr>"

text \<open>
  A wrapping row flex container 120 high with a gap of 10 between items and between
  lines, holding three flex lines of two items each, each line 20 high. The 40 left over
  in the cross axis are distributed between the lines, so the lines lie at the cross
  offsets 0, 50 and 100, with cross extents 0 to 20, 50 to 70 and 100 to 120. The
  accumulator is run over the six items in layout order.
\<close>

definition spread_lines_example :: "FlexLine list" where
  "spread_lines_example =
     [\<lparr>item_indices = [0, 1], cross_axis_offset = 0\<rparr>,
      \<lparr>item_indices = [2, 3], cross_axis_offset = 50\<rparr>,
      \<lparr>item_indices = [4, 5], cross_axis_offset = 100\<rparr>]"

definition spread_lines_run :: "failure + FlexGapAccumulator" where
  "spread_lines_run =
     and_then (and_then (and_then (and_then (and_then
       (BuildGapsForCurrentItem (new_FlexGapAccumulator 10 10 example_builder False)
          spread_lines_example 0 0 \<lparr>inline_offset = 0, block_offset = 0\<rparr> True False 0 20)
       (\<lambda>acc. BuildGapsForCurrentItem acc
          spread_lines_example 0 1 \<lparr>inline_offset = 100, block_offset = 0\<rparr> True False 0 20))
       (\<lambda>acc. BuildGapsForCurrentItem acc
          spread_lines_example 1 0 \<lparr>inline_offset = 0, block_offset = 50\<rparr> False False 50 70))
       (\<lambda>acc. BuildGapsForCurrentItem acc
          spread_lines_example 1 1 \<lparr>inline_offset = 100, block_offset = 50\<rparr> False False 50 70))
       (\<lambda>acc. BuildGapsForCurrentItem acc
          spread_lines_example 2 0 \<lparr>inline_offset = 0, block_offset = 100\<rparr> False True 100 120))
       (\<lambda>acc. BuildGapsForCurrentItem acc
          spread_lines_example 2 1 \<lparr>inline_offset = 100, block_offset = 100\<rparr> False True 100 120)"

text \<open>A blocked-status function that reports every intersection as blocked on both sides.\<close>

definition all_blocked :: blocked_status_fn where
  "all_blocked direction gap_index intersection_index intersections =
     {kBlockedBefore, kBlockedAfter}"

subsection \<open>Track openings: the invariant, the unused remainder, example inputs\<close>

text \<open>
  The openings of one track are ordered by position, do not overlap, and each has
  \<open>start_position < end_position\<close>; the invariant holds when it holds on every track.
\<close>

fun openings_ordered :: "TrackOpening list \<Rightarrow> bool" where
  "openings_ordered [] = True"
| "openings_ordered [a] = (start_position a < end_position a)"
| "openings_ordered (a # b # rest) =
     (start_position a < end_position a \<and> end_position a \<le> start_position b \<and>
      openings_ordered (b # rest))"

definition openings_invariant :: "MasonryRunningPositions \<Rightarrow> bool" where
  "openings_invariant st = list_all openings_ordered (track_collection_openings st)"

text \<open>
  The form of the invariant that recording an opening maintains: there is one list of
  openings per track, and on every track the openings are ordered and end at or before
  the track's running position.
\<close>

definition openings_below_running_position :: "MasonryRunningPositions \<Rightarrow> bool" where
  "openings_below_running_position st \<longleftrightarrow>
     length (track_collection_openings st) = length (running_positions st) \<and>
     (\<forall>t<length (running_positions st).
        openings_ordered (track_collection_openings st ! t) \<and>
        (\<forall>opening\<in>set (track_collection_openings st ! t).
           end_position opening \<le> running_positions st ! t))"

text \<open>
  What placing an item of a given size at a given start position inside an opening leaves
  unused: nothing when the item fills the opening, otherwise the part above the item (when
  the item does not start at the opening's start) and the part below it.
\<close>

definition spec_remainder :: "TrackOpening \<Rightarrow> LayoutUnit \<Rightarrow> LayoutUnit \<Rightarrow> TrackOpening list" where
  "spec_remainder opening placement_start item_size =
     (if item_size = end_position opening - start_position opening then []
      else (if placement_start \<noteq> start_position opening
            then [\<lparr>start_position = start_position opening, end_position = placement_start\<rparr>]
            else []) @
           (if placement_start + item_size < end_position opening
            then [\<lparr>start_position = placement_start + item_size,
                   end_position = end_position opening\<rparr>]
            else []))"

text \<open>
  Three tracks with running positions 0, 50 and 100 under dense packing. Placing an item
  across all three (maximum running position 100, new running position 150) records the
  opening \<open>[0, 100)\<close> on track 0 and \<open>[50, 100)\<close> on track 1. An auto-placed item of
  size 10 that spans two tracks is then placed into these openings at position 50.
\<close>

definition staggered_tracks :: MasonryRunningPositions where
  "staggered_tracks =
     \<lparr>running_positions = [0, 50, 100], track_collection_openings = [[], [], []],
      track_collection_sizes = [10, 10, 10], auto_placement_cursor = 0,
      tie_threshold = 0, is_dense_packing = True\<rparr>"

definition split_example :: MasonryRunningPositions where
  "split_example =
     \<lparr>running_positions = [150, 150, 150],
      track_collection_openings =
        [[\<lparr>start_position = 0, end_position = 100\<rparr>],
         [\<lparr>start_position = 50, end_position = 100\<rparr>], []],
      track_collection_sizes = [10, 10, 10], auto_placement_cursor = 0,
      tie_threshold = 0, is_dense_packing = True\<rparr>"

definition split_example_item :: GridItemData where
  "split_example_item = \<lparr>is_auto_placed = True, resolved_span = \<lparr>start_line = 0, end_line = 2\<rparr>\<rparr>"

definition split_example_after :: MasonryRunningPositions where
  "split_example_after =
     split_example\<lparr>track_collection_openings :=
        [[\<lparr>start_position = 0, end_position = 50\<rparr>, \<lparr>start_position = 10, end_position = 100\<rparr>],
         [\<lparr>start_position = 60, end_position = 100\<rparr>], []]\<rparr>"

subsection \<open>Paths of openings, in the words of the specification\<close>

text \<open>
  A path is a list of opening indices, one per track, for consecutive tracks starting at
  \<open>track\<close>. It fits an item when, on every track of the path, the chosen opening
  overlaps the window handed down from the previous tracks by at least the item's size;
  each track narrows the window to that overlap. \<open>spec_path_start\<close> is the start of the
  window after the last track of the path, that is, the overlap start of the innermost
  frame.
\<close>

fun spec_path_fits ::
  "TrackOpening list list \<Rightarrow> LayoutUnit \<Rightarrow> LayoutUnit \<Rightarrow> LayoutUnit \<Rightarrow> nat \<Rightarrow> nat list \<Rightarrow> bool" where
  "spec_path_fits openings item_size window_start window_end track [] = True"
| "spec_path_fits openings item_size window_start window_end track (i # rest) =
     (track < length openings \<and> i < length (openings ! track) \<and>
      item_size \<le> min window_end (end_position (openings ! track ! i))
                    - max window_start (start_position (openings ! track ! i)) \<and>
      spec_path_fits openings item_size
        (max window_start (start_position (openings ! track ! i)))
        (min window_end (end_position (openings ! track ! i))) (Suc track) rest)"

fun spec_path_start :: "TrackOpening list list \<Rightarrow> LayoutUnit \<Rightarrow> nat \<Rightarrow> nat list \<Rightarrow> LayoutUnit" where
  "spec_path_start openings window_start track [] = window_start"
| "spec_path_start openings window_start track (i # rest) =
     spec_path_start openings (max window_start (start_position (openings ! track ! i)))
       (Suc track) rest"

text \<open>One track whose only opening, \<open>[0, 5)\<close>, is too small for an item of size 10.\<close>

definition small_opening_example :: MasonryRunningPositions where
  "small_opening_example =
     \<lparr>running_positions = [150],
      track_collection_openings = [[\<lparr>start_position = 0, end_position = 5\<rparr>]],
      track_collection_sizes = [10], auto_placement_cursor = 0,
      tie_threshold = 0, is_dense_packing = True\<rparr>"

definition small_opening_item :: GridItemData where
  "small_opening_item = \<lparr>is_auto_placed = True, resolved_span = \<lparr>start_line = 0, end_line = 1\<rparr>\<rparr>"

section \<open>Eligible-line selection\<close>

lemma GetMaxPositionForSpan_window:
  assumes "1 \<le> s" "i + s \<le> length (running_positions st)"
  shows "GetMaxPositionForSpan st (TranslatedDefiniteGridSpan i (i + s))
         = Inr (spec_window_max (running_positions st) s i)"
proof -
  let ?w = "take s (drop i (running_positions st))"
  have len: "length ?w = s" using assms by simp
  then obtain x xs where w: "?w = x # xs" using assms(1) by (cases ?w) auto
  have "Max (set (x # xs)) = fold max xs x" by (rule Max.set_eq_fold)
  with w assms show ?thesis
    by (simp add: GetMaxPositionForSpan_def TranslatedDefiniteGridSpan_def StartLine_def
        IntegerSpan_def spec_window_max_def Let_def)
qed

lemma max_positions_loop_map:
  assumes "1 \<le> s" "k + s \<le> Suc (length (running_positions st))" "i \<le> k"
  shows "max_positions_loop st k (TranslatedDefiniteGridSpan i (i + s)) acc
         = Inr (acc @ map (spec_window_max (running_positions st) s) [i..<k])"
  using assms
proof (induction "k - i" arbitrary: i acc)
  case 0
  then have "i = k" by simp
  then show ?case
    by (subst max_positions_loop.simps) (simp add: StartLine_def TranslatedDefiniteGridSpan_def)
next
  case (Suc d)
  then have lt: "i < k" by simp
  then have fit: "i + s \<le> length (running_positions st)" using Suc.prems by simp
  have nxt: "GridSpan_next (TranslatedDefiniteGridSpan i (i + s))
             = TranslatedDefiniteGridSpan (Suc i) (Suc i + s)"
    by (simp add: GridSpan_next_def TranslatedDefiniteGridSpan_def)
  have d: "d = k - Suc i" using Suc.hyps(2) by simp
  have IH: "max_positions_loop st k (TranslatedDefiniteGridSpan (Suc i) (Suc i + s))
              (acc @ [spec_window_max (running_positions st) s i])
            = Inr ((acc @ [spec_window_max (running_positions st) s i])
                   @ map (spec_window_max (running_positions st) s) [Suc i..<k])"
    using Suc.hyps(1)[OF d Suc.prems(1) Suc.prems(2)] lt by simp
  have st: "StartLine (TranslatedDefiniteGridSpan i (i + s)) = i"
    by (simp add: StartLine_def TranslatedDefiniteGridSpan_def)
  show ?case
    apply (subst max_positions_loop.simps)
    apply (simp only: st lt if_True GetMaxPositionForSpan_window[OF Suc.prems(1) fit] sum.case nxt IH)
    using lt by (simp add: upt_conv_Cons)
qed

lemma window_one: "i < length rp \<Longrightarrow> spec_window_max rp (Suc 0) i = rp ! i"
  by (simp add: spec_window_max_def hd_drop_conv_nth take_Suc)

lemma GetMaxPositionsForAllTracks_map:
  assumes "1 \<le> s" "s \<le> length (running_positions st)" "length (running_positions st) < 2 ^ 32"
  shows "GetMaxPositionsForAllTracks st s
         = Inr (map (spec_window_max (running_positions st) s)
                  [0..<Suc (length (running_positions st) - s)])"
proof (cases "s = 1")
  case True
  have "running_positions st = map (spec_window_max (running_positions st) 1)
                  [0..<Suc (length (running_positions st) - 1)]"
    using assms(2) True by (intro nth_equalityI) (auto simp: window_one simp del: upt_Suc)
  then show ?thesis using True by (simp add: GetMaxPositionsForAllTracks_def)
next
  case False
  have k: "wtf_size_add (wtf_size_sub (length (running_positions st)) s) (Suc 0)
           = Suc (length (running_positions st) - s)"
    using assms by (simp add: wtf_size_add_def wtf_size_sub_def)
  have "max_positions_loop st (Suc (length (running_positions st) - s))
          (TranslatedDefiniteGridSpan 0 (0 + s)) []
        = Inr ([] @ map (spec_window_max (running_positions st) s)
                 [0..<Suc (length (running_positions st) - s)])"
    by (rule max_positions_loop_map) (use assms in auto)
  then show ?thesis
    using False by (simp add: GetMaxPositionsForAllTracks_def k Let_def del: upt_Suc)
qed

lemma Find_Some:
  "FindPositionWithinThreshold xs t i = Some l \<Longrightarrow>
   i \<le> l \<and> l < length xs \<and> xs ! l \<le> t \<and> (\<forall>j. i \<le> j \<and> j < l \<longrightarrow> \<not> xs ! j \<le> t)"
proof (induction xs t i rule: FindPositionWithinThreshold.induct)
  case (1 xs t i)
  show ?case
  proof (cases "i < length xs \<and> \<not> xs ! i \<le> t")
    case True
    then have "FindPositionWithinThreshold xs t (Suc i) = Some l"
      using "1.prems" by (subst (asm) FindPositionWithinThreshold.simps) simp
    from "1.IH"[OF _ _ this] True
    have *: "Suc i \<le> l \<and> l < length xs \<and> xs ! l \<le> t \<and> (\<forall>j. Suc i \<le> j \<and> j < l \<longrightarrow> \<not> xs ! j \<le> t)"
      by simp
    show ?thesis
    proof (intro conjI allI impI)
      fix j assume j: "i \<le> j \<and> j < l"
      show "\<not> xs ! j \<le> t"
      proof (cases "j = i")
        case True' : True
        then show ?thesis using True by simp
      next
        case False
        then show ?thesis using * j by simp
      qed
    qed (use * in auto)
  next
    case False
    then show ?thesis using "1.prems"
      by (subst (asm) FindPositionWithinThreshold.simps) (auto split: if_splits)
  qed
qed

lemma Find_None:
  "FindPositionWithinThreshold xs t i = None \<Longrightarrow> i \<le> j \<Longrightarrow> j < length xs \<Longrightarrow> \<not> xs ! j \<le> t"
proof (induction xs t i rule: FindPositionWithinThreshold.induct)
  case (1 xs t i)
  have il: "i < length xs" using "1.prems" by simp
  have ni: "\<not> xs ! i \<le> t" using "1.prems"(1) il
    by (subst (asm) FindPositionWithinThreshold.simps) (auto split: if_splits)
  have nx: "FindPositionWithinThreshold xs t (Suc i) = None" using "1.prems"(1) il ni
    by (subst (asm) FindPositionWithinThreshold.simps) simp
  show ?case
  proof (cases "j = i")
    case True
    then show ?thesis using ni by simp
  next
    case False
    then show ?thesis using "1.IH"[OF il ni nx] "1.prems" by simp
  qed
qed


lemma candidates_upt:
  "s \<le> n \<Longrightarrow> {i. i + s \<le> n} = set [0..<Suc (n - s)]"
  by auto

lemma GetFirstEligibleLine_unfold:
  assumes "1 \<le> s" "s \<le> length (running_positions st)" "length (running_positions st) < 2 ^ 32"
  defines "xs \<equiv> map (spec_window_max (running_positions st) s)
                    [0..<Suc (length (running_positions st) - s)]"
  defines "allowed \<equiv> spec_global_min (running_positions st) s + tie_threshold st"
  shows "GetFirstEligibleLine st s =
           (case (case FindPositionWithinThreshold xs allowed (auto_placement_cursor st) of
                    None \<Rightarrow> FindPositionWithinThreshold xs allowed 0
                  | Some i \<Rightarrow> Some i) of
              None \<Rightarrow> Inl CHECK_failure
            | Some l \<Rightarrow> Inr (TranslatedDefiniteGridSpan l (l + s), xs ! l))"
proof -
  have ne: "xs \<noteq> []" by (simp add: xs_def del: upt_Suc)
  then obtain m ms where xs: "xs = m # ms" by (cases xs) auto
  have "fold min ms m = Min (set (m # ms))" by (rule Min.set_eq_fold[symmetric])
  also have "\<dots> = spec_global_min (running_positions st) s"
    unfolding xs[symmetric] xs_def spec_global_min_def
    using candidates_upt[OF assms(2)] by (simp del: upt_Suc)
  finally have mn: "fold min ms m = spec_global_min (running_positions st) s" .
  have g: "GetMaxPositionsForAllTracks st s = Inr (m # ms)"
    unfolding xs[symmetric] xs_def by (rule GetMaxPositionsForAllTracks_map[OF assms(1-3)])
  show ?thesis
    unfolding GetFirstEligibleLine_def g sum.case xs list.case Let_def mn allowed_def
    by (rule refl)
qed

lemma eligible_iff_nth:
  assumes "s \<le> length (running_positions st)"
  shows "spec_tie_eligible st s j \<longleftrightarrow>
         j < length (map (spec_window_max (running_positions st) s)
                    [0..<Suc (length (running_positions st) - s)]) \<and>
         map (spec_window_max (running_positions st) s)
                    [0..<Suc (length (running_positions st) - s)] ! j
           \<le> spec_global_min (running_positions st) s + tie_threshold st"
proof -
  have "j + s \<le> length (running_positions st) \<longleftrightarrow> j < Suc (length (running_positions st) - s)"
    using assms by auto
  then show ?thesis
    by (auto simp: spec_tie_eligible_def nth_map_upt simp del: upt_Suc)
qed

lemma GetFirstEligibleLine_general:
  assumes "1 \<le> s" "s \<le> length (running_positions st)" "length (running_positions st) < 2 ^ 32"
  shows "if \<exists>j. spec_tie_eligible st s j
         then \<exists>l. GetFirstEligibleLine st s =
                     Inr (TranslatedDefiniteGridSpan l (l + s),
                          spec_window_max (running_positions st) s l) \<and>
                  spec_tie_eligible st s l \<and>
                  (if \<exists>j. auto_placement_cursor st \<le> j \<and> spec_tie_eligible st s j
                   then auto_placement_cursor st \<le> l \<and>
                        (\<forall>j. auto_placement_cursor st \<le> j \<and> j < l
                              \<longrightarrow> \<not> spec_tie_eligible st s j)
                   else (\<forall>j<l. \<not> spec_tie_eligible st s j))
         else GetFirstEligibleLine st s = Inl CHECK_failure"
proof -
  define xs where "xs = map (spec_window_max (running_positions st) s)
                    [0..<Suc (length (running_positions st) - s)]"
  define allowed where "allowed = spec_global_min (running_positions st) s + tie_threshold st"
  define c where "c = auto_placement_cursor st"
  have el: "\<And>j. spec_tie_eligible st s j \<longleftrightarrow> j < length xs \<and> xs ! j \<le> allowed"
    unfolding xs_def allowed_def by (rule eligible_iff_nth[OF assms(2)])
  have nth: "\<And>l. l < length xs \<Longrightarrow> xs ! l = spec_window_max (running_positions st) s l"
    by (simp add: xs_def nth_map_upt del: upt_Suc)
  have unf: "GetFirstEligibleLine st s =
           (case (case FindPositionWithinThreshold xs allowed c of
                    None \<Rightarrow> FindPositionWithinThreshold xs allowed 0
                  | Some i \<Rightarrow> Some i) of
              None \<Rightarrow> Inl CHECK_failure
            | Some l \<Rightarrow> Inr (TranslatedDefiniteGridSpan l (l + s), xs ! l))"
    unfolding xs_def allowed_def c_def by (rule GetFirstEligibleLine_unfold[OF assms])
  show ?thesis
  proof (cases "FindPositionWithinThreshold xs allowed c")
    case (Some l)
    note F = Find_Some[OF Some]
    have "spec_tie_eligible st s l" using F el by simp
    moreover have "\<exists>j. c \<le> j \<and> spec_tie_eligible st s j" using F el by blast
    moreover have "\<forall>j. c \<le> j \<and> j < l \<longrightarrow> \<not> spec_tie_eligible st s j" using F el by blast
    moreover have "GetFirstEligibleLine st s =
        Inr (TranslatedDefiniteGridSpan l (l + s), spec_window_max (running_positions st) s l)"
      using unf Some nth F by simp
    ultimately show ?thesis using F unfolding c_def[symmetric] by auto
  next
    case None
    have noc: "\<not> (\<exists>j. c \<le> j \<and> spec_tie_eligible st s j)"
      using Find_None[OF None] el by blast
    show ?thesis
    proof (cases "FindPositionWithinThreshold xs allowed 0")
      case (Some l)
      note F = Find_Some[OF Some]
      have "spec_tie_eligible st s l" using F el by simp
      moreover have "\<forall>j<l. \<not> spec_tie_eligible st s j" using F el by simp
      moreover have "GetFirstEligibleLine st s =
          Inr (TranslatedDefiniteGridSpan l (l + s), spec_window_max (running_positions st) s l)"
        using unf None Some nth F by simp
      ultimately show ?thesis using noc unfolding c_def[symmetric] by auto
    next
      case None' : None
      have "\<not> (\<exists>j. spec_tie_eligible st s j)"
        using Find_None[OF None', of _] el by simp
      moreover have "GetFirstEligibleLine st s = Inl CHECK_failure"
        using unf None None' by simp
      ultimately show ?thesis by simp
    qed
  qed
qed

lemma min_line_eligible:
  assumes "1 \<le> s" "s \<le> length (running_positions st)" "0 \<le> tie_threshold st"
  shows "\<exists>j. spec_tie_eligible st s j"
proof -
  let ?C = "{i. i + s \<le> length (running_positions st)}"
  let ?w = "spec_window_max (running_positions st) s"
  have fin: "finite (?w ` ?C)" using candidates_upt[OF assms(2)] by simp
  have "0 \<in> ?C" using assms(2) by simp
  then have ne: "?w ` ?C \<noteq> {}" by blast
  from Min_in[OF fin ne] obtain j where j: "j \<in> ?C" "?w j = Min (?w ` ?C)" by auto
  then have "spec_tie_eligible st s j"
    using assms(3) by (simp add: spec_tie_eligible_def spec_global_min_def)
  then show ?thesis ..
qed

lemma example_eligible_set:
  assumes "running_positions st = [0, 0, 5]" "tie_threshold st = 0"
  shows "{i. spec_tie_eligible st 1 i} = {0, 1}"
proof -
  have C: "{i. i + 1 \<le> length [0::int, 0, 5]} = {0, 1, 2}" by auto
  have w: "spec_window_max [0, 0, 5] (Suc 0) 0 = 0"
          "spec_window_max [0, 0, 5] (Suc 0) (Suc 0) = 0"
          "spec_window_max [0, 0, 5] (Suc 0) 2 = 5"
    by (simp_all add: spec_window_max_def numeral_2_eq_2)
  have m: "spec_global_min [0, 0, 5] 1 = 0"
    unfolding spec_global_min_def C by (simp add: w)
  have "\<And>i. spec_tie_eligible st 1 i \<longleftrightarrow> i = 0 \<or> i = 1"
  proof -
    fix i :: nat
    have "i + 1 \<le> 3 \<longleftrightarrow> i = 0 \<or> i = 1 \<or> i = 2" by auto
    then show "spec_tie_eligible st 1 i \<longleftrightarrow> i = 0 \<or> i = 1"
      using w m by (auto simp: spec_tie_eligible_def assms)
  qed
  then show ?thesis by auto
qed

text \<open>
  Claim C1. For \<open>1 \<le> span_size \<le>\<close> number of tracks, \<open>GetFirstEligibleLine\<close> returns the
  span starting at a tie-eligible line \<open>l\<close> (window maximum at most the global minimum of
  the window maxima plus \<open>tie_threshold\<close>): the first tie-eligible line at or after the
  auto-placement cursor or, when there is none there, the first tie-eligible line overall;
  the value written to the output parameter is the window maximum of \<open>l\<close>. (Were no line
  tie-eligible at all, the lookup of the result would fail its bounds check.) For the
  running positions \<open>[0, 0, 5]\<close>, span size 1 and tie threshold 0 the eligible lines are
  exactly \<open>{0, 1}\<close>, and with the cursor at 1 the chosen line is 1.
\<close>

theorem GetFirstEligibleLine_spec:
  "(1 \<le> span_size \<and> span_size \<le> length (running_positions st) \<and>
    length (running_positions st) < 2 ^ 32 \<longrightarrow>
      (if \<exists>j. spec_tie_eligible st span_size j
       then \<exists>l. GetFirstEligibleLine st span_size =
                   Inr (TranslatedDefiniteGridSpan l (l + span_size),
                        spec_window_max (running_positions st) span_size l) \<and>
                spec_tie_eligible st span_size l \<and>
                (if \<exists>j. auto_placement_cursor st \<le> j \<and> spec_tie_eligible st span_size j
                 then auto_placement_cursor st \<le> l \<and>
                      (\<forall>j. auto_placement_cursor st \<le> j \<and> j < l
                            \<longrightarrow> \<not> spec_tie_eligible st span_size j)
                 else (\<forall>j<l. \<not> spec_tie_eligible st span_size j))
       else GetFirstEligibleLine st span_size = Inl CHECK_failure)) \<and>
   (running_positions ex = [0, 0, 5] \<and> tie_threshold ex = 0 \<longrightarrow>
      {i. spec_tie_eligible ex 1 i} = {0, 1} \<and>
      (auto_placement_cursor ex = 1 \<longrightarrow>
         GetFirstEligibleLine ex 1 = Inr (TranslatedDefiniteGridSpan 1 2, 0)))"
proof (intro conjI impI)
  assume "1 \<le> span_size \<and> span_size \<le> length (running_positions st) \<and>
    length (running_positions st) < 2 ^ 32"
  then show "if \<exists>j. spec_tie_eligible st span_size j
       then \<exists>l. GetFirstEligibleLine st span_size =
                   Inr (TranslatedDefiniteGridSpan l (l + span_size),
                        spec_window_max (running_positions st) span_size l) \<and>
                spec_tie_eligible st span_size l \<and>
                (if \<exists>j. auto_placement_cursor st \<le> j \<and> spec_tie_eligible st span_size j
                 then auto_placement_cursor st \<le> l \<and>
                      (\<forall>j. auto_placement_cursor st \<le> j \<and> j < l
                            \<longrightarrow> \<not> spec_tie_eligible st span_size j)
                 else (\<forall>j<l. \<not> spec_tie_eligible st span_size j))
       else GetFirstEligibleLine st span_size = Inl CHECK_failure"
    using GetFirstEligibleLine_general[of span_size st] by blast
next
  assume a: "running_positions ex = [0, 0, 5] \<and> tie_threshold ex = 0"
  then show "{i. spec_tie_eligible ex 1 i} = {0, 1}" using example_eligible_set[of ex] by blast
next
  assume a: "running_positions ex = [0, 0, 5] \<and> tie_threshold ex = 0"
     and c: "auto_placement_cursor ex = 1"
  have E: "\<And>i. spec_tie_eligible ex 1 i \<longleftrightarrow> i = 0 \<or> i = 1"
    using example_eligible_set[of ex] a by blast
  have ex1: "\<exists>j. auto_placement_cursor ex \<le> j \<and> spec_tie_eligible ex 1 j"
    using E c by auto
  have "1 \<le> (1::nat)" "1 \<le> length (running_positions ex)" "length (running_positions ex) < 2 ^ 32"
    using a by simp_all
  from GetFirstEligibleLine_general[OF this] ex1
  obtain l where l: "GetFirstEligibleLine ex 1 =
                   Inr (TranslatedDefiniteGridSpan l (l + 1),
                        spec_window_max (running_positions ex) 1 l)"
      "spec_tie_eligible ex 1 l" "auto_placement_cursor ex \<le> l"
    by (auto split: if_splits)
  then have "l = 1" using E c by auto
  then show "GetFirstEligibleLine ex 1 = Inr (TranslatedDefiniteGridSpan 1 2, 0)"
    using l(1) a by (simp add: spec_window_max_def numeral_2_eq_2)
qed

theorem GetFirstEligibleLine_spec_witness:
  "GetFirstEligibleLine eligible_line_example 1 = Inr (TranslatedDefiniteGridSpan 1 2, 0) \<and>
   {i. spec_tie_eligible eligible_line_example 1 i} = {0, 1} \<and>
   (\<exists>l. GetFirstEligibleLine eligible_line_example 1 =
           Inr (TranslatedDefiniteGridSpan l (l + 1),
                spec_window_max (running_positions eligible_line_example) 1 l) \<and>
         spec_tie_eligible eligible_line_example 1 l \<and>
         auto_placement_cursor eligible_line_example \<le> l)"
proof -
  note T = GetFirstEligibleLine_spec[of 1 eligible_line_example eligible_line_example]
  have h: "(1::nat) \<le> 1 \<and> 1 \<le> length (running_positions eligible_line_example) \<and>
        length (running_positions eligible_line_example) < 2 ^ 32"
    by (simp add: eligible_line_example_def)
  have p: "running_positions eligible_line_example = [0, 0, 5] \<and>
        tie_threshold eligible_line_example = 0"
    by (simp add: eligible_line_example_def)
  have c: "auto_placement_cursor eligible_line_example = 1"
    by (simp add: eligible_line_example_def)
  from T p c have A: "{i. spec_tie_eligible eligible_line_example 1 i} = {0, 1}"
    and B: "GetFirstEligibleLine eligible_line_example 1 = Inr (TranslatedDefiniteGridSpan 1 2, 0)"
    by blast+
  from A have e1: "spec_tie_eligible eligible_line_example 1 1" by blast
  then have ex: "\<exists>j. spec_tie_eligible eligible_line_example 1 j"
    and exc: "\<exists>j. auto_placement_cursor eligible_line_example \<le> j \<and>
                  spec_tie_eligible eligible_line_example 1 j"
    using c by auto
  from T h ex exc have "\<exists>l. GetFirstEligibleLine eligible_line_example 1 =
           Inr (TranslatedDefiniteGridSpan l (l + 1),
                spec_window_max (running_positions eligible_line_example) 1 l) \<and>
         spec_tie_eligible eligible_line_example 1 l \<and>
         auto_placement_cursor eligible_line_example \<le> l"
    by (auto split: if_splits)
  with A B show ?thesis by blast
qed

text \<open>
  Claim C10. For \<open>1 \<le> span_size \<le>\<close> number of tracks, a cursor within bounds and a
  non-negative tie threshold, \<open>GetFirstEligibleLine\<close> always returns a span that fits the
  tracks: the line that attains the global minimum is within the threshold, so the
  search from index 0 finds a line and the not-found branch is never taken. The line
  returned is tie-eligible, and the value written to the output parameter is the window
  maximum of that line, which is at most the global minimum plus the tie threshold.
\<close>

theorem GetFirstEligibleLine_always_found:
  assumes "1 \<le> span_size" "span_size \<le> length (running_positions st)"
    and "length (running_positions st) < 2 ^ 32"
    and "auto_placement_cursor st \<le> length (running_positions st)"
    and "0 \<le> tie_threshold st"
  shows "\<exists>l m. GetFirstEligibleLine st span_size =
                 Inr (TranslatedDefiniteGridSpan l (l + span_size), m) \<and>
               l + span_size \<le> length (running_positions st) \<and>
               m \<le> spec_global_min (running_positions st) span_size + tie_threshold st \<and>
               spec_tie_eligible st span_size l \<and>
               m = spec_window_max (running_positions st) span_size l \<and>
               spec_window_max (running_positions st) span_size l
                 \<le> spec_global_min (running_positions st) span_size + tie_threshold st"
proof -
  have "\<exists>j. spec_tie_eligible st span_size j"
    using min_line_eligible[OF assms(1,2,5)] .
  with GetFirstEligibleLine_general[OF assms(1-3)]
  obtain l where l: "GetFirstEligibleLine st span_size =
                   Inr (TranslatedDefiniteGridSpan l (l + span_size),
                        spec_window_max (running_positions st) span_size l)"
     "spec_tie_eligible st span_size l"
    by (auto split: if_splits)
  from l(2) have b: "l + span_size \<le> length (running_positions st)"
      "spec_window_max (running_positions st) span_size l
         \<le> spec_global_min (running_positions st) span_size + tie_threshold st"
    by (simp_all add: spec_tie_eligible_def)
  show ?thesis
    by (rule exI[of _ l], rule exI[of _ "spec_window_max (running_positions st) span_size l"])
       (intro conjI l b refl)
qed

theorem GetFirstEligibleLine_always_found_witness:
  "\<exists>l m. GetFirstEligibleLine eligible_line_example 1 =
                 Inr (TranslatedDefiniteGridSpan l (l + 1), m) \<and>
               l + 1 \<le> length (running_positions eligible_line_example) \<and>
               m \<le> spec_global_min (running_positions eligible_line_example) 1
                     + tie_threshold eligible_line_example \<and>
               spec_tie_eligible eligible_line_example 1 l \<and>
               m = spec_window_max (running_positions eligible_line_example) 1 l \<and>
               spec_window_max (running_positions eligible_line_example) 1 l
                 \<le> spec_global_min (running_positions eligible_line_example) 1
                     + tie_threshold eligible_line_example"
proof -
  have h: "1 \<le> (1::nat)" "1 \<le> length (running_positions eligible_line_example)"
      "length (running_positions eligible_line_example) < 2 ^ 32"
      "auto_placement_cursor eligible_line_example
         \<le> length (running_positions eligible_line_example)"
      "0 \<le> tie_threshold eligible_line_example"
    by (simp_all add: eligible_line_example_def)
  show ?thesis by (rule GetFirstEligibleLine_always_found[OF h])
qed

section \<open>Overwriting the running positions\<close>

lemma update_tracks_loop_None:
  assumes "e \<le> length (running_positions st)"
  shows "update_tracks_loop i e new None st =
         Inr (st\<lparr>running_positions :=
                  map (\<lambda>t. if i \<le> t \<and> t < e then new else running_positions st ! t)
                      [0..<length (running_positions st)]\<rparr>)"
  using assms
proof (induction "e - i" arbitrary: i st)
  case 0
  then have ni: "\<not> i < e" by simp
  then have "map (\<lambda>t. if i \<le> t \<and> t < e then new else running_positions st ! t)
                      [0..<length (running_positions st)]
             = map (\<lambda>t. running_positions st ! t) [0..<length (running_positions st)]"
    by auto
  also have "\<dots> = running_positions st" by (rule map_nth)
  finally show ?case using ni
    by (subst update_tracks_loop.simps) simp
next
  case (Suc d)
  then have lt: "i < e" by simp
  let ?st1 = "st\<lparr>running_positions := (running_positions st)[i := new]\<rparr>"
  have d: "d = e - Suc i" using Suc.hyps(2) by simp
  have len: "e \<le> length (running_positions ?st1)" using Suc.prems by simp
  have IH: "update_tracks_loop (Suc i) e new None ?st1 =
         Inr (?st1\<lparr>running_positions :=
                  map (\<lambda>t. if Suc i \<le> t \<and> t < e then new else running_positions ?st1 ! t)
                      [0..<length (running_positions ?st1)]\<rparr>)"
    by (rule Suc.hyps(1)[OF d len])
  have eq: "map (\<lambda>t. if Suc i \<le> t \<and> t < e then new else running_positions ?st1 ! t)
                      [0..<length (running_positions ?st1)]
          = map (\<lambda>t. if i \<le> t \<and> t < e then new else running_positions st ! t)
                      [0..<length (running_positions st)]"
    using lt Suc.prems by (auto simp: nth_list_update)
  show ?case
    apply (subst update_tracks_loop.simps)
    using lt IH eq by (simp add: Let_def)
qed

text \<open>
  Claim C5, as amended. Without \<open>max_running_position_for_span\<close> (non-dense packing), a call
  of \<open>UpdateRunningPositionsForSpan\<close> whose span lies within the tracks sets every track of
  the span to \<open>new_running_position\<close> and leaves the other tracks as they were; so every
  track's running position is at least its value before the call whenever
  \<open>new_running_position\<close> is at least the running position of every track of the span.
\<close>

theorem UpdateRunningPositionsForSpan_overwrites:
  assumes "EndLine span \<le> length (running_positions st)"
  shows "\<exists>st'. UpdateRunningPositionsForSpan st span new_running_position None = Inr st' \<and>
           length (running_positions st') = length (running_positions st) \<and>
           (\<forall>t<length (running_positions st).
               running_positions st' ! t =
                 (if StartLine span \<le> t \<and> t < EndLine span then new_running_position
                  else running_positions st ! t)) \<and>
           ((\<forall>t. StartLine span \<le> t \<and> t < EndLine span
                  \<longrightarrow> running_positions st ! t \<le> new_running_position)
             \<longrightarrow> (\<forall>t<length (running_positions st).
                     running_positions st ! t \<le> running_positions st' ! t))"
  using assms update_tracks_loop_None[of "EndLine span" st "StartLine span" new_running_position]
  by (auto simp: UpdateRunningPositionsForSpan_def Let_def)

theorem UpdateRunningPositionsForSpan_overwrites_witness:
  "\<exists>st'. UpdateRunningPositionsForSpan overwrite_example (TranslatedDefiniteGridSpan 0 1) 25 None
           = Inr st' \<and>
         running_positions st' = [25] \<and>
         running_positions overwrite_example ! 0 \<le> running_positions st' ! 0"
proof -
  have h: "EndLine (TranslatedDefiniteGridSpan 0 1) \<le> length (running_positions overwrite_example)"
    by (simp add: EndLine_def TranslatedDefiniteGridSpan_def overwrite_example_def)
  from UpdateRunningPositionsForSpan_overwrites[OF h, of 25]
  obtain st' where s: "UpdateRunningPositionsForSpan overwrite_example
                         (TranslatedDefiniteGridSpan 0 1) 25 None = Inr st'"
     "length (running_positions st') = length (running_positions overwrite_example)"
     "\<forall>t<length (running_positions overwrite_example).
               running_positions st' ! t =
                 (if StartLine (TranslatedDefiniteGridSpan 0 1) \<le> t \<and>
                     t < EndLine (TranslatedDefiniteGridSpan 0 1) then 25
                  else running_positions overwrite_example ! t)"
    by blast
  have "running_positions st' = [25]"
    using s(2,3)
    by (cases "running_positions st'")
       (auto simp: overwrite_example_def StartLine_def EndLine_def TranslatedDefiniteGridSpan_def)
  then show ?thesis using s(1) by (simp add: overwrite_example_def)
qed

text \<open>
  The function overwrites unconditionally: a track at 10 that is given the new running
  position 5 goes down to 5.
\<close>

theorem UpdateRunningPositionsForSpan_can_decrease:
  "UpdateRunningPositionsForSpan overwrite_example (TranslatedDefiniteGridSpan 0 1) 5 None
     = Inr (overwrite_example\<lparr>running_positions := [5]\<rparr>) \<and>
   running_positions overwrite_example = [10] \<and>
   \<not> running_positions overwrite_example ! 0
       \<le> running_positions (overwrite_example\<lparr>running_positions := [5]\<rparr>) ! 0"
  by (simp add: UpdateRunningPositionsForSpan_def overwrite_example_def EndLine_def StartLine_def
      TranslatedDefiniteGridSpan_def update_tracks_loop.simps Let_def)

section \<open>Flex gap geometry and rule segments\<close>

text \<open>
  Claim C7. \<open>BuildGapGeometry\<close> returns null exactly when neither axis is valid, an axis
  being valid when its gap list is not empty and its gap size is strictly positive; in
  particular it returns null when \<open>gap_between_items\<close> and \<open>gap_between_lines\<close> are both
  zero, and it returns a geometry as soon as one axis is valid.
\<close>

theorem BuildGapGeometry_null_iff:
  "(fst (BuildGapGeometry acc) = None \<longleftrightarrow>
      \<not> (main_gaps acc \<noteq> [] \<and> 0 < gap_between_lines acc) \<and>
      \<not> (cross_gaps acc \<noteq> [] \<and> 0 < gap_between_items acc)) \<and>
   (gap_between_items acc = 0 \<and> gap_between_lines acc = 0
      \<longrightarrow> fst (BuildGapGeometry acc) = None)"
  by (simp add: BuildGapGeometry_def Let_def)

theorem BuildGapGeometry_null_iff_witness:
  "gap_between_items zero_gap_example = 0 \<and> gap_between_lines zero_gap_example = 0 \<and>
   cross_gaps zero_gap_example \<noteq> [] \<and>
   fst (BuildGapGeometry zero_gap_example) = None \<and>
   fst (BuildGapGeometry (zero_gap_example\<lparr>gap_between_items := 10\<rparr>)) \<noteq> None"
  using BuildGapGeometry_null_iff[of zero_gap_example]
        BuildGapGeometry_null_iff[of "zero_gap_example\<lparr>gap_between_items := 10\<rparr>"]
  by (simp add: zero_gap_example_def new_FlexGapAccumulator_def)

text \<open>
  Claim C9. With \<open>RuleBreak::kNone\<close>, \<open>AdjustIntersectionIndexPair\<close> sets \<open>start\<close> to 0 and
  \<open>end\<close> to the last intersection index, \<open>intersection_count - 1\<close>, whatever the gap index,
  the intersections and their blocked status are.
\<close>

theorem AdjustIntersectionIndexPair_kNone:
  "AdjustIntersectionIndexPair blocked track_direction start end_index intersection_count
       gap_index RuleBreak_kNone gap_geometry intersections
     = (0, wtf_size_sub intersection_count 1) \<and>
   (intersection_count = length intersections \<and> intersections \<noteq> [] \<longrightarrow>
      AdjustIntersectionIndexPair blocked track_direction start end_index intersection_count
          gap_index RuleBreak_kNone gap_geometry intersections
        = (0, length intersections - 1))"
  by (auto simp: AdjustIntersectionIndexPair_def wtf_size_sub_def Let_def Suc_le_eq)

theorem AdjustIntersectionIndexPair_kNone_witness:
  "AdjustIntersectionIndexPair all_blocked kForRows 1 1 (length [0, 10, 20 :: int]) 0
       RuleBreak_kNone (new_GapGeometry kGrid) [0, 10, 20] = (0, 2)"
  using AdjustIntersectionIndexPair_kNone[of all_blocked kForRows 1 1 "length [0, 10, 20 :: int]"
          0 "new_GapGeometry kGrid" "[0, 10, 20]"]
  by (simp add: wtf_size_sub_def)

lemma HandleCrossGapRanges_cross_gaps:
  assumes "main_gaps acc = [] \<or> flex_line_index = 0 \<or> flex_line_index - 1 < length (main_gaps acc)"
  shows "\<exists>acc'. HandleCrossGapRangesForCurrentItem acc flex_line_index cross_gap_index = Inr acc' \<and>
           cross_gaps acc' = cross_gaps acc \<and> is_column acc' = is_column acc"
  using assms by (auto simp: HandleCrossGapRangesForCurrentItem_def Let_def)

lemma PopulateCrossGap_appends:
  assumes "main_gaps acc = [] \<or> flex_line_index = 0 \<or> flex_line_index - 1 < length (main_gaps acc)"
  shows "\<exists>acc'. PopulateCrossGapForCurrentItem acc flex_line flex_line_index is_first_line
                   is_last_line single_line main_intersection_offset cross_start = Inr acc' \<and>
           is_column acc' = is_column acc \<and>
           cross_gaps acc' = cross_gaps acc @
             [\<lparr>GetGapOffset =
                 \<lparr>inline_offset =
                    (if is_column acc
                     then (if single_line then cross_start
                           else if is_first_line then cross_start
                           else if is_last_line
                             then cross_start - LayoutUnit_half (gap_between_lines acc)
                           else cross_axis_offset flex_line - LayoutUnit_half (gap_between_lines acc))
                     else main_intersection_offset),
                  block_offset =
                    (if is_column acc then main_intersection_offset
                     else (if single_line then cross_start
                           else if is_first_line then cross_start
                           else if is_last_line
                             then cross_start - LayoutUnit_half (gap_between_lines acc)
                           else cross_axis_offset flex_line - LayoutUnit_half (gap_between_lines acc)))\<rparr>,
               GetEdgeIntersectionState =
                 (if single_line then kBoth else if is_first_line then kStart
                  else if is_last_line then kEnd else kNone)\<rparr>]"
proof -
  let ?g = "\<lparr>GetGapOffset =
                 \<lparr>inline_offset =
                    (if is_column acc
                     then (if single_line then cross_start
                           else if is_first_line then cross_start
                           else if is_last_line
                             then cross_start - LayoutUnit_half (gap_between_lines acc)
                           else cross_axis_offset flex_line - LayoutUnit_half (gap_between_lines acc))
                     else main_intersection_offset),
                  block_offset =
                    (if is_column acc then main_intersection_offset
                     else (if single_line then cross_start
                           else if is_first_line then cross_start
                           else if is_last_line
                             then cross_start - LayoutUnit_half (gap_between_lines acc)
                           else cross_axis_offset flex_line - LayoutUnit_half (gap_between_lines acc)))\<rparr>,
               GetEdgeIntersectionState =
                 (if single_line then kBoth else if is_first_line then kStart
                  else if is_last_line then kEnd else kNone)\<rparr>"
  let ?acc1 = "acc\<lparr>cross_gaps := cross_gaps acc @ [?g]\<rparr>"
  have P: "PopulateCrossGapForCurrentItem acc flex_line flex_line_index is_first_line
                   is_last_line single_line main_intersection_offset cross_start
           = HandleCrossGapRangesForCurrentItem ?acc1 flex_line_index (length (cross_gaps ?acc1) - 1)"
    by (simp add: PopulateCrossGapForCurrentItem_def Let_def)
  have "main_gaps ?acc1 = [] \<or> flex_line_index = 0 \<or> flex_line_index - 1 < length (main_gaps ?acc1)"
    using assms by simp
  from HandleCrossGapRanges_cross_gaps[OF this, of "length (cross_gaps ?acc1) - 1"]
  obtain acc' where "HandleCrossGapRangesForCurrentItem ?acc1 flex_line_index
                       (length (cross_gaps ?acc1) - 1) = Inr acc'"
     "cross_gaps acc' = cross_gaps ?acc1" "is_column acc' = is_column ?acc1"
    by blast
  then show ?thesis unfolding P by simp
qed

text \<open>
  What the code emits for an item that is not the first of its line, in a call that
  passes its bounds checks: exactly one \<open>CrossGap\<close>, at the item's main-axis offset minus
  half the gap between items. In a single line its state is \<open>kBoth\<close> and its cross-axis
  offset the line's cross start; in the first of several lines \<open>kStart\<close> and the line's
  cross start; in the last line \<open>kEnd\<close> and the line's cross start minus half the gap
  between lines; in a middle line \<open>kNone\<close> and the flex line's \<open>cross_axis_offset\<close> minus
  half the gap between lines. The previous line's cross end is not read.
\<close>

lemma BuildGapsForCurrentItem_cross_gap:
  assumes "flex_line_index < length flex_lines"
    and "item_index_in_line \<noteq> 0"
    and "main_gaps acc = [] \<or> flex_line_index = 0 \<or> flex_line_index - 1 < length (main_gaps acc)"
  shows "\<exists>acc' g.
           BuildGapsForCurrentItem acc flex_lines flex_line_index item_index_in_line item_offset
               is_first_line is_last_line line_cross_start line_cross_end = Inr acc' \<and>
           cross_gaps acc' = cross_gaps acc @ [g] \<and>
           gap_main_axis_offset (is_column acc) g =
             (if is_column acc then block_offset item_offset else inline_offset item_offset)
               - LayoutUnit_half (gap_between_items acc) \<and>
           (is_first_line \<and> is_last_line \<longrightarrow>
              GetEdgeIntersectionState g = kBoth \<and>
              gap_cross_axis_offset (is_column acc) g = line_cross_start) \<and>
           (is_first_line \<and> \<not> is_last_line \<longrightarrow>
              GetEdgeIntersectionState g = kStart \<and>
              gap_cross_axis_offset (is_column acc) g = line_cross_start) \<and>
           (\<not> is_first_line \<and> is_last_line \<longrightarrow>
              GetEdgeIntersectionState g = kEnd \<and>
              gap_cross_axis_offset (is_column acc) g =
                line_cross_start - LayoutUnit_half (gap_between_lines acc)) \<and>
           (\<not> is_first_line \<and> \<not> is_last_line \<longrightarrow>
              GetEdgeIntersectionState g = kNone \<and>
              gap_cross_axis_offset (is_column acc) g =
                cross_axis_offset (flex_lines ! flex_line_index)
                  - LayoutUnit_half (gap_between_lines acc))"
proof -
  let ?mo = "(if is_column acc then block_offset item_offset else inline_offset item_offset)
               - LayoutUnit_half (gap_between_items acc)"
  from PopulateCrossGap_appends[OF assms(3), of "flex_lines ! flex_line_index" is_first_line
         is_last_line "is_first_line \<and> is_last_line" ?mo line_cross_start]
  obtain acc3 where a3:
    "PopulateCrossGapForCurrentItem acc (flex_lines ! flex_line_index) flex_line_index
        is_first_line is_last_line (is_first_line \<and> is_last_line) ?mo line_cross_start = Inr acc3"
    and col: "is_column acc3 = is_column acc"
    and cg: "cross_gaps acc3 = cross_gaps acc @
             [\<lparr>GetGapOffset =
                 \<lparr>inline_offset =
                    (if is_column acc
                     then (if is_first_line \<and> is_last_line then line_cross_start
                           else if is_first_line then line_cross_start
                           else if is_last_line
                             then line_cross_start - LayoutUnit_half (gap_between_lines acc)
                           else cross_axis_offset (flex_lines ! flex_line_index)
                                  - LayoutUnit_half (gap_between_lines acc))
                     else ?mo),
                  block_offset =
                    (if is_column acc then ?mo
                     else (if is_first_line \<and> is_last_line then line_cross_start
                           else if is_first_line then line_cross_start
                           else if is_last_line
                             then line_cross_start - LayoutUnit_half (gap_between_lines acc)
                           else cross_axis_offset (flex_lines ! flex_line_index)
                                  - LayoutUnit_half (gap_between_lines acc)))\<rparr>,
               GetEdgeIntersectionState =
                 (if is_first_line \<and> is_last_line then kBoth else if is_first_line then kStart
                  else if is_last_line then kEnd else kNone)\<rparr>]"
    by blast
  show ?thesis
    using assms(1,2) a3 cg
    by (auto simp: BuildGapsForCurrentItem_def Let_def gap_main_axis_offset_def
        gap_cross_axis_offset_def)
qed


lemma BuildGapsForCurrentItem_cross_gap_example:
  "\<exists>acc' g.
     BuildGapsForCurrentItem (new_FlexGapAccumulator 10 10 example_builder False)
         spread_lines_example 1 1 \<lparr>inline_offset = 100, block_offset = 50\<rparr>
         False False 50 70 = Inr acc' \<and>
     cross_gaps acc' = [g] \<and>
     gap_main_axis_offset False g = 95 \<and>
     GetEdgeIntersectionState g = kNone \<and>
     gap_cross_axis_offset False g = 45"
  using BuildGapsForCurrentItem_cross_gap[of 1 spread_lines_example 1
          "new_FlexGapAccumulator 10 10 example_builder False"
          "\<lparr>inline_offset = 100, block_offset = 50\<rparr>" False False 50 70]
  by (simp add: spread_lines_example_def new_FlexGapAccumulator_def LayoutUnit_half_def
      signed_divide_int_def)

lemma spread_lines_run_value:
  "map_sum id cross_gaps spread_lines_run =
     Inr [\<lparr>GetGapOffset = \<lparr>inline_offset = 95, block_offset = 0\<rparr>,
           GetEdgeIntersectionState = kStart\<rparr>,
          \<lparr>GetGapOffset = \<lparr>inline_offset = 95, block_offset = 45\<rparr>,
           GetEdgeIntersectionState = kNone\<rparr>,
          \<lparr>GetGapOffset = \<lparr>inline_offset = 95, block_offset = 95\<rparr>,
           GetEdgeIntersectionState = kEnd\<rparr>]"
  "map_sum id main_gaps spread_lines_run =
     Inr [\<lparr>GetGapOffset_main = 25, RangeOfCrossGapsBefore = Some (0, 0),
           RangeOfCrossGapsAfter = Some (1, 1)\<rparr>,
          \<lparr>GetGapOffset_main = 75, RangeOfCrossGapsBefore = Some (1, 1),
           RangeOfCrossGapsAfter = Some (2, 2)\<rparr>]"
  by (simp_all add: spread_lines_run_def and_then_def BuildGapsForCurrentItem_def
      spread_lines_example_def new_FlexGapAccumulator_def example_builder_def Let_def
      wtf_size_sub_def PopulateMainGapForFirstItem_def PopulateCrossGapForCurrentItem_def
      HandleCrossGapRangesForCurrentItem_def LayoutUnit_half_def signed_divide_int_def
      MainGap_of_offset_def IncrementRangeOfCrossGapsBefore_def
      IncrementRangeOfCrossGapsAfter_def increment_range_def container_main_end_of_def)

text \<open>
  Claim C8 (the code diverges). In the middle line of the spread container, whose cross
  start is 50 while the previous line ends at 20, the one \<open>CrossGap\<close> emitted for the second
  item has state \<open>kNone\<close> and the cross-axis offset 45: the line's \<open>cross_axis_offset\<close> moved
  back by half the gap between lines. The midpoint between the line's cross start and
  the previous line's cross end, which the comments of the source give as the start of
  this cross gap, is 35. The \<open>MainGap\<close> recorded before the line is at 25, so the cross gap
  does not start on it either. The cross gaps of the first and of the last line are as
  claimed (\<open>kStart\<close> at the cross start 0, \<open>kEnd\<close> at 100 less half the gap).
\<close>

theorem middle_line_cross_gap_not_midpoint:
  "map_sum id cross_gaps spread_lines_run =
     Inr [\<lparr>GetGapOffset = \<lparr>inline_offset = 95, block_offset = 0\<rparr>,
           GetEdgeIntersectionState = kStart\<rparr>,
          \<lparr>GetGapOffset = \<lparr>inline_offset = 95, block_offset = 45\<rparr>,
           GetEdgeIntersectionState = kNone\<rparr>,
          \<lparr>GetGapOffset = \<lparr>inline_offset = 95, block_offset = 95\<rparr>,
           GetEdgeIntersectionState = kEnd\<rparr>] \<and>
   map_sum id main_gaps spread_lines_run =
     Inr [\<lparr>GetGapOffset_main = 25, RangeOfCrossGapsBefore = Some (0, 0),
           RangeOfCrossGapsAfter = Some (1, 1)\<rparr>,
          \<lparr>GetGapOffset_main = 75, RangeOfCrossGapsBefore = Some (1, 1),
           RangeOfCrossGapsAfter = Some (2, 2)\<rparr>] \<and>
   spec_midpoint 50 20 = 35 \<and>
   gap_cross_axis_offset False
       \<lparr>GetGapOffset = \<lparr>inline_offset = 95, block_offset = 45\<rparr>,
        GetEdgeIntersectionState = kNone\<rparr>
     \<noteq> spec_midpoint 50 20"
  by (simp add: spread_lines_run_value spec_midpoint_def LayoutUnit_half_def signed_divide_int_def
      gap_cross_axis_offset_def)

section \<open>The invariant of the openings\<close>

text \<open>
  Recording openings keeps the invariant: when the openings of every track end at or
  before its running position, and \<open>UpdateRunningPositionsForSpan\<close> is given the maximum
  running position of the span and a new running position that is not below it, the
  openings stay ordered and disjoint, and below the new running positions.
\<close>

lemma openings_ordered_append:
  "openings_ordered ops \<Longrightarrow> \<forall>opening\<in>set ops. end_position opening \<le> s \<Longrightarrow> s < e \<Longrightarrow>
   openings_ordered (ops @ [\<lparr>start_position = s, end_position = e\<rparr>])"
  by (induction ops rule: openings_ordered.induct) auto

lemma update_tracks_loop_keeps_openings:
  assumes "openings_below_running_position st"
    and "e \<le> length (running_positions st)"
    and "\<forall>t. i \<le> t \<and> t < e \<longrightarrow> running_positions st ! t \<le> mx"
    and "mx \<le> new"
  shows "\<exists>st'. update_tracks_loop i e new (Some mx) st = Inr st' \<and>
               openings_below_running_position st'"
  using assms
proof (induction "e - i" arbitrary: i st)
  case 0
  then have "\<not> i < e" by simp
  then have "update_tracks_loop i e new (Some mx) st = Inr st"
    by (subst update_tracks_loop.simps) simp
  with "0.prems"(1) show ?case by simp
next
  case (Suc d)
  then have lt: "i < e" by simp
  let ?rp = "running_positions st" and ?tco = "track_collection_openings st"
  have len: "length ?tco = length ?rp" and il: "i < length ?rp"
    using Suc.prems(1,2) lt by (simp_all add: openings_below_running_position_def)
  have cur: "?rp ! i \<le> mx" using Suc.prems(3) lt by simp
  have inv_i: "openings_ordered (?tco ! i)"
      "\<forall>opening\<in>set (?tco ! i). end_position opening \<le> ?rp ! i"
    using Suc.prems(1) il by (simp_all add: openings_below_running_position_def)
  have inv_t: "\<And>t. t < length ?rp \<Longrightarrow> openings_ordered (?tco ! t) \<and>
        (\<forall>opening\<in>set (?tco ! t). end_position opening \<le> ?rp ! t)"
    using Suc.prems(1) by (simp add: openings_below_running_position_def)
  define st1 where "st1 =
     (if ?rp ! i < mx
      then st\<lparr>track_collection_openings :=
                ?tco[i := ?tco ! i @ [\<lparr>start_position = ?rp ! i, end_position = mx\<rparr>]]\<rparr>
      else st)"
  define st2 where "st2 = st1\<lparr>running_positions := (running_positions st1)[i := new]\<rparr>"
  have step: "update_tracks_loop i e new (Some mx) st
              = update_tracks_loop (Suc i) e new (Some mx) st2"
    using lt il len
    by (subst update_tracks_loop.simps) (simp add: Let_def st1_def st2_def)
  have rp2: "running_positions st2 = ?rp[i := new]"
    by (simp add: st2_def st1_def)
  have tco2: "track_collection_openings st2 =
     (if ?rp ! i < mx
      then ?tco[i := ?tco ! i @ [\<lparr>start_position = ?rp ! i, end_position = mx\<rparr>]]
      else ?tco)"
    by (simp add: st2_def st1_def)
  have inv2: "openings_below_running_position st2"
  proof -
    have l2: "length (track_collection_openings st2) = length (running_positions st2)"
      using len by (simp add: rp2 tco2)
    have "openings_ordered (track_collection_openings st2 ! t) \<and>
          (\<forall>opening\<in>set (track_collection_openings st2 ! t).
              end_position opening \<le> running_positions st2 ! t)"
      if t: "t < length (running_positions st2)" for t
    proof (cases "t = i")
      case False
      have tl: "t < length ?rp" using t by (simp add: rp2)
      show ?thesis using False inv_t[OF tl] tl len by (simp add: rp2 tco2)
    next
      case True
      show ?thesis
      proof (cases "?rp ! i < mx")
        case c: True
        have "openings_ordered (?tco ! i @ [\<lparr>start_position = ?rp ! i, end_position = mx\<rparr>])"
          by (rule openings_ordered_append[OF inv_i c])
        moreover have "\<forall>opening\<in>set (?tco ! i @ [\<lparr>start_position = ?rp ! i, end_position = mx\<rparr>]).
                          end_position opening \<le> new"
          using inv_i(2) c Suc.prems(4) by fastforce
        ultimately show ?thesis using True c il len by (simp add: rp2 tco2)
      next
        case c: False
        have "\<forall>opening\<in>set (?tco ! i). end_position opening \<le> new"
          using inv_i(2) cur Suc.prems(4) by fastforce
        then show ?thesis using True c il inv_i(1) by (simp add: rp2 tco2)
      qed
    qed
    with l2 show ?thesis unfolding openings_below_running_position_def by blast
  qed
  have d: "d = e - Suc i" using Suc.hyps(2) by simp
  have e2: "e \<le> length (running_positions st2)" using Suc.prems(2) by (simp add: rp2)
  have b2: "\<forall>t. Suc i \<le> t \<and> t < e \<longrightarrow> running_positions st2 ! t \<le> mx"
    using Suc.prems(3) by (simp add: rp2)
  from Suc.hyps(1)[OF d inv2 e2 b2 Suc.prems(4)] show ?case unfolding step .
qed

lemma openings_below_invariant:
  "openings_below_running_position st \<Longrightarrow> openings_invariant st"
  by (simp add: openings_below_running_position_def openings_invariant_def list_all_length)

lemma UpdateRunningPositionsForSpan_keeps_openings:
  assumes "openings_below_running_position st"
    and "EndLine span \<le> length (running_positions st)"
    and "\<forall>t. StartLine span \<le> t \<and> t < EndLine span \<longrightarrow> running_positions st ! t \<le> mx"
    and "mx \<le> new_running_position"
  shows "\<exists>st'. UpdateRunningPositionsForSpan st span new_running_position (Some mx) = Inr st' \<and>
               openings_below_running_position st' \<and> openings_invariant st'"
proof -
  from update_tracks_loop_keeps_openings[OF assms(1,2,3,4)]
  obtain st' where "update_tracks_loop (StartLine span) (EndLine span) new_running_position
                      (Some mx) st = Inr st'" "openings_below_running_position st'"
    by blast
  then show ?thesis using assms(2) openings_below_invariant
    by (auto simp: UpdateRunningPositionsForSpan_def Let_def)
qed

subsection \<open>Consuming openings: the split case\<close>

lemma split_example_reached:
  "UpdateRunningPositionsForSpan staggered_tracks (TranslatedDefiniteGridSpan 0 3) 150 (Some 100)
     = Inr split_example"
  by (simp add: UpdateRunningPositionsForSpan_def staggered_tracks_def split_example_def
      TranslatedDefiniteGridSpan_def EndLine_def StartLine_def update_tracks_loop.simps Let_def)

lemma split_example_result:
  "GetEligibleTrackOpeningAndUpdateMasonryItemSpan split_example split_example_item 10
     = Inr (50, split_example_after, split_example_item)"
  by code_simp


text \<open>
  Claim C2 (the code diverges). The item of size 10 is placed at 50 into the opening
  \<open>[0, 100)\<close> of track 0. The opening is not exactly filled and the item does not start at
  the opening's start, so \<open>[0, 50)\<close> is inserted before it and the start of the consumed
  opening is advanced by the size of the item from its own start, to 10: the track is
  left with \<open>[0, 50)\<close> and \<open>[10, 100)\<close>, whereas the unused remainder is \<open>[0, 50)\<close> and
  \<open>[60, 100)\<close>.
\<close>

theorem consumed_opening_remainder_diverges:
  "GetEligibleTrackOpeningAndUpdateMasonryItemSpan split_example split_example_item 10
     = Inr (50, split_example_after, split_example_item) \<and>
   track_collection_openings split_example ! 0 = [\<lparr>start_position = 0, end_position = 100\<rparr>] \<and>
   track_collection_openings split_example_after ! 0
     = [\<lparr>start_position = 0, end_position = 50\<rparr>, \<lparr>start_position = 10, end_position = 100\<rparr>] \<and>
   spec_remainder \<lparr>start_position = 0, end_position = 100\<rparr> 50 10
     = [\<lparr>start_position = 0, end_position = 50\<rparr>, \<lparr>start_position = 60, end_position = 100\<rparr>]"
proof (intro conjI)
  show "GetEligibleTrackOpeningAndUpdateMasonryItemSpan split_example split_example_item 10
          = Inr (50, split_example_after, split_example_item)"
    by (rule split_example_result)
qed (simp_all add: split_example_def split_example_after_def spec_remainder_def)

text \<open>
  Claim C3 (the code diverges). The state reached by \<open>UpdateRunningPositionsForSpan\<close> from
  three staggered tracks satisfies the invariant of the openings; after
  \<open>GetEligibleTrackOpeningAndUpdateMasonryItemSpan\<close> has split the opening of track 0, the
  openings \<open>[0, 50)\<close> and \<open>[10, 100)\<close> of that track overlap and the invariant is lost.
\<close>

theorem consumed_opening_breaks_invariant:
  "UpdateRunningPositionsForSpan staggered_tracks (TranslatedDefiniteGridSpan 0 3) 150 (Some 100)
     = Inr split_example \<and>
   openings_invariant split_example \<and>
   GetEligibleTrackOpeningAndUpdateMasonryItemSpan split_example split_example_item 10
     = Inr (50, split_example_after, split_example_item) \<and>
   \<not> openings_invariant split_example_after"
proof (intro conjI)
  show "UpdateRunningPositionsForSpan staggered_tracks (TranslatedDefiniteGridSpan 0 3) 150
          (Some 100) = Inr split_example"
    by (rule split_example_reached)
  show "GetEligibleTrackOpeningAndUpdateMasonryItemSpan split_example split_example_item 10
          = Inr (50, split_example_after, split_example_item)"
    by (rule split_example_result)
qed (simp_all add: openings_invariant_def split_example_def split_example_after_def)

section \<open>Searching for a path of openings\<close>

lemma accumulate_loop_char:
  assumes "\<not> IsValid r" "track + ntr < length (track_collection_openings st)"
  shows "\<exists>r'. accumulate_loop st S ws we ntr track i r = Inr r' \<and>
           (if \<exists>j rest. i \<le> j \<and> length rest = ntr \<and>
                  spec_path_fits (track_collection_openings st) S ws we track (j # rest)
            then \<exists>j rest. i \<le> j \<and> length rest = ntr \<and>
                   spec_path_fits (track_collection_openings st) S ws we track (j # rest) \<and>
                   path_start_position r' =
                     Some (spec_path_start (track_collection_openings st) ws track (j # rest)) \<and>
                   track_opening_indices r' = track_opening_indices r @ rev (j # rest) \<and>
                   starting_track_index r' = starting_track_index r
            else r' = r)"
  using assms
proof (induction ntr arbitrary: track ws we i r rule: less_induct)
  case (less ntr)
  let ?tco = "track_collection_openings st"
  let ?C = "\<lambda>i. \<exists>j rest. i \<le> j \<and> length rest = ntr \<and>
                  spec_path_fits ?tco S ws we track (j # rest)"
  let ?D = "\<lambda>i r'. \<exists>j rest. i \<le> j \<and> length rest = ntr \<and>
                   spec_path_fits ?tco S ws we track (j # rest) \<and>
                   path_start_position r' = Some (spec_path_start ?tco ws track (j # rest)) \<and>
                   track_opening_indices r' = track_opening_indices r @ rev (j # rest) \<and>
                   starting_track_index r' = starting_track_index r"
  have tr: "track < length ?tco" using less.prems by simp
  have nv: "\<not> IsValid r" using less.prems(1) .
  show ?case
  proof (induction "length (?tco ! track) - i" arbitrary: i rule: less_induct)
    case inner: less
    show ?case
    proof (cases "i < length (?tco ! track)")
      case False
      have l: "accumulate_loop st S ws we ntr track i r = Inr r"
        using False by (subst accumulate_loop.simps) simp
      have "\<not> ?C i"
      proof
        assume "?C i"
        then obtain j rest where "i \<le> j" "spec_path_fits ?tco S ws we track (j # rest)" by blast
        then have "i \<le> j" "j < length (?tco ! track)" by simp_all
        with False show False by simp
      qed
      then have "if ?C i then ?D i r else r = r" by (simp only: if_False)
      with l show ?thesis by blast
    next
      case True
      define opn where "opn = ?tco ! track ! i"
      define os where "os = max ws (start_position opn)"
      define oe where "oe = min we (end_position opn)"
      have fits_i: "\<And>rest. spec_path_fits ?tco S ws we track (i # rest) \<longleftrightarrow>
                      S \<le> oe - os \<and> spec_path_fits ?tco S os oe (Suc track) rest"
        using True tr by (simp add: opn_def os_def oe_def)
      have less_i: "length (?tco ! track) - Suc i < length (?tco ! track) - i"
        using True by simp
      from inner.hyps[OF less_i]
      obtain rs where rs: "accumulate_loop st S ws we ntr track (Suc i) r = Inr rs"
        and qs: "if ?C (Suc i) then ?D (Suc i) rs else rs = r"
        by blast
      have shift: "if ?C i then ?D i rs else rs = r"
        if no: "\<And>rest. length rest = ntr \<Longrightarrow> \<not> spec_path_fits ?tco S ws we track (i # rest)"
      proof (cases "?C (Suc i)")
        case c: True
        with qs have "?D (Suc i) rs" by (simp only: if_True)
        then obtain j rest where jr: "Suc i \<le> j" "length rest = ntr"
                   "spec_path_fits ?tco S ws we track (j # rest)"
                   "path_start_position rs = Some (spec_path_start ?tco ws track (j # rest))"
                   "track_opening_indices rs = track_opening_indices r @ rev (j # rest)"
                   "starting_track_index rs = starting_track_index r"
          by blast
        have ij: "i \<le> j" using jr(1) by simp
        have d: "?D i rs"
          by (rule exI[of _ j], rule exI[of _ rest]) (intro conjI ij jr)
        have c': "?C i"
          by (rule exI[of _ j], rule exI[of _ rest]) (intro conjI ij jr)
        show ?thesis using d c' by (simp only: if_True)
      next
        case c: False
        with qs have e: "rs = r" by (simp only: if_False)
        have "\<not> ?C i"
        proof
          assume "?C i"
          then obtain j rest where jr: "i \<le> j" "length rest = ntr"
              "spec_path_fits ?tco S ws we track (j # rest)" by blast
          have "j \<noteq> i" using no[OF jr(2)] jr(3) by blast
          with jr(1) have "Suc i \<le> j" by simp
          with jr have "?C (Suc i)" by blast
          with c show False by contradiction
        qed
        with e show ?thesis by (simp only: if_False)
      qed
      show ?thesis
      proof (cases "S \<le> oe - os")
        case small: False
        have l: "accumulate_loop st S ws we ntr track i r
              = accumulate_loop st S ws we ntr track (Suc i) r"
          using True tr small
          by (subst accumulate_loop.simps) (simp add: Let_def opn_def os_def oe_def)
        have "if ?C i then ?D i rs else rs = r"
          by (rule shift) (use small fits_i in simp)
        then show ?thesis unfolding l using rs by blast
      next
        case big: True
        show ?thesis
        proof (cases "ntr = 0")
          case z: True
          let ?r1 = "r\<lparr>path_start_position := Some os,
                         track_opening_indices := track_opening_indices r @ [i]\<rparr>"
          have l: "accumulate_loop st S ws we ntr track i r = Inr ?r1"
            using True tr big z nv
            by (subst accumulate_loop.simps) (simp add: Let_def opn_def os_def oe_def)
          have f: "spec_path_fits ?tco S ws we track (i # [])"
            by (subst fits_i) (simp add: big)
          have st: "spec_path_start ?tco ws track (i # []) = os"
            by (simp add: opn_def os_def)
          have c: "?C i"
            by (rule exI[of _ i], rule exI[of _ "[]"]) (use f z in simp)
          have d: "?D i ?r1"
            by (rule exI[of _ i], rule exI[of _ "[]"]) (use f z st in simp)
          have "if ?C i then ?D i ?r1 else ?r1 = r" using c d by (simp only: if_True)
          with l show ?thesis by blast
        next
          case nz: False
          then have lt: "ntr - 1 < ntr" by simp
          have tr': "Suc track + (ntr - 1) < length ?tco" using less.prems(2) nz by simp
          let ?C' = "\<exists>j rest. 0 \<le> j \<and> length rest = ntr - 1 \<and>
                          spec_path_fits ?tco S os oe (Suc track) (j # rest)"
          from less.IH[OF lt nv tr', where ws = os and we = oe and i = 0]
          obtain r'' where
            rec: "accumulate_loop st S os oe (ntr - 1) (Suc track) 0 r = Inr r''"
            and ch: "if ?C'
                     then \<exists>j rest. 0 \<le> j \<and> length rest = ntr - 1 \<and>
                          spec_path_fits ?tco S os oe (Suc track) (j # rest) \<and>
                          path_start_position r'' =
                            Some (spec_path_start ?tco os (Suc track) (j # rest)) \<and>
                          track_opening_indices r'' = track_opening_indices r @ rev (j # rest) \<and>
                          starting_track_index r'' = starting_track_index r
                     else r'' = r"
            by blast
          have acc: "AccumulateTrackOpeningsToAccommodateItem st S os oe (ntr - 1) (track + 1) r
                     = Inr (IsValid r'', r'')"
            using tr' rec by (subst AccumulateTrackOpeningsToAccommodateItem.simps) simp
          show ?thesis
          proof (cases ?C')
            case ex: True
            with ch have "\<exists>j rest. 0 \<le> j \<and> length rest = ntr - 1 \<and>
                          spec_path_fits ?tco S os oe (Suc track) (j # rest) \<and>
                          path_start_position r'' =
                            Some (spec_path_start ?tco os (Suc track) (j # rest)) \<and>
                          track_opening_indices r'' = track_opening_indices r @ rev (j # rest) \<and>
                          starting_track_index r'' = starting_track_index r"
              by (simp only: if_True)
            then obtain j rest where jr: "length rest = ntr - 1"
                "spec_path_fits ?tco S os oe (Suc track) (j # rest)"
                "path_start_position r'' = Some (spec_path_start ?tco os (Suc track) (j # rest))"
                "track_opening_indices r'' = track_opening_indices r @ rev (j # rest)"
                "starting_track_index r'' = starting_track_index r"
              by blast
            have v: "IsValid r''" using jr(3) by (simp add: IsValid_def)
            let ?r1 = "r''\<lparr>track_opening_indices := track_opening_indices r'' @ [i]\<rparr>"
            have l: "accumulate_loop st S ws we ntr track i r = Inr ?r1"
              using True tr big nz acc v
              by (subst accumulate_loop.simps) (simp add: Let_def opn_def os_def oe_def)
            have len: "length (j # rest) = ntr" using jr(1) nz by simp
            have f: "spec_path_fits ?tco S ws we track (i # j # rest)"
              using big jr(2) by (simp only: fits_i)
            have st: "spec_path_start ?tco ws track (i # j # rest)
                           = spec_path_start ?tco os (Suc track) (j # rest)"
              by (simp add: opn_def os_def)
            have c: "?C i"
              by (rule exI[of _ i], rule exI[of _ "j # rest"]) (use f len in simp)
            have d: "?D i ?r1"
              by (rule exI[of _ i], rule exI[of _ "j # rest"]) (use f len st jr in simp)
            have "if ?C i then ?D i ?r1 else ?r1 = r" using c d by (simp only: if_True)
            with l show ?thesis by blast
          next
            case nex: False
            with ch have r'': "r'' = r" by (simp only: if_False)
            have l: "accumulate_loop st S ws we ntr track i r
                  = accumulate_loop st S ws we ntr track (Suc i) r"
              using True tr big nz acc r'' nv
              by (subst accumulate_loop.simps) (simp add: Let_def opn_def os_def oe_def)
            have no: "\<not> spec_path_fits ?tco S ws we track (i # rest)"
              if lenr: "length rest = ntr" for rest
            proof
              assume a: "spec_path_fits ?tco S ws we track (i # rest)"
              then have b: "spec_path_fits ?tco S os oe (Suc track) rest"
                by (simp only: fits_i)
              obtain j rest' where e: "rest = j # rest'" using lenr nz by (cases rest) auto
              then have "length rest' = ntr - 1" using lenr by simp
              with b e have ?C' by blast
              with nex show False by contradiction
            qed
            have "if ?C i then ?D i rs else rs = r"
              by (rule shift) (rule no)
            then show ?thesis unfolding l using rs by blast
          qed
        qed
      qed
    qed
  qed
qed

lemma Accumulate_char:
  assumes "\<not> IsValid r" "track + ntr < length (track_collection_openings st)"
  shows "\<exists>found r'.
           AccumulateTrackOpeningsToAccommodateItem st S ws we ntr track r = Inr (found, r') \<and>
           (found \<longleftrightarrow> (\<exists>path. length path = Suc ntr \<and>
                       spec_path_fits (track_collection_openings st) S ws we track path)) \<and>
           (if found
            then \<exists>path. length path = Suc ntr \<and>
                   spec_path_fits (track_collection_openings st) S ws we track path \<and>
                   path_start_position r' =
                     Some (spec_path_start (track_collection_openings st) ws track path) \<and>
                   track_opening_indices r' = track_opening_indices r @ rev path \<and>
                   starting_track_index r' = starting_track_index r
            else r' = r)"
proof -
  let ?tco = "track_collection_openings st"
  let ?C = "\<exists>j rest. 0 \<le> j \<and> length rest = ntr \<and> spec_path_fits ?tco S ws we track (j # rest)"
  let ?P = "\<exists>path. length path = Suc ntr \<and> spec_path_fits ?tco S ws we track path"
  have CP: "?C \<longleftrightarrow> ?P"
  proof
    assume ?C
    then obtain j rest where "length rest = ntr" "spec_path_fits ?tco S ws we track (j # rest)"
      by blast
    then have "length (j # rest) = Suc ntr \<and> spec_path_fits ?tco S ws we track (j # rest)"
      by simp
    then show ?P by blast
  next
    assume ?P
    then obtain path where p: "length path = Suc ntr" "spec_path_fits ?tco S ws we track path"
      by blast
    then obtain j rest where "path = j # rest" by (cases path) auto
    with p have "0 \<le> j \<and> length rest = ntr \<and> spec_path_fits ?tco S ws we track (j # rest)"
      by simp
    then show ?C by blast
  qed
  from accumulate_loop_char[OF assms, of S ws we 0]
  obtain r' where l: "accumulate_loop st S ws we ntr track 0 r = Inr r'"
    and q: "if ?C
            then \<exists>j rest. 0 \<le> j \<and> length rest = ntr \<and>
                   spec_path_fits ?tco S ws we track (j # rest) \<and>
                   path_start_position r' = Some (spec_path_start ?tco ws track (j # rest)) \<and>
                   track_opening_indices r' = track_opening_indices r @ rev (j # rest) \<and>
                   starting_track_index r' = starting_track_index r
            else r' = r"
    by blast
  have tr: "track < length ?tco" using assms(2) by simp
  have a: "AccumulateTrackOpeningsToAccommodateItem st S ws we ntr track r = Inr (IsValid r', r')"
    using tr l by (subst AccumulateTrackOpeningsToAccommodateItem.simps) simp
  show ?thesis
  proof (cases ?C)
    case True
    with q obtain j rest where jr: "length rest = ntr"
        "spec_path_fits ?tco S ws we track (j # rest)"
        "path_start_position r' = Some (spec_path_start ?tco ws track (j # rest))"
        "track_opening_indices r' = track_opening_indices r @ rev (j # rest)"
        "starting_track_index r' = starting_track_index r"
      by auto
    have v: "IsValid r'" using jr(3) by (simp add: IsValid_def)
    have p: ?P using True CP by blast
    have d: "\<exists>path. length path = Suc ntr \<and>
                   spec_path_fits ?tco S ws we track path \<and>
                   path_start_position r' = Some (spec_path_start ?tco ws track path) \<and>
                   track_opening_indices r' = track_opening_indices r @ rev path \<and>
                   starting_track_index r' = starting_track_index r"
      by (rule exI[of _ "j # rest"]) (use jr in simp)
    show ?thesis
      by (rule exI[of _ "IsValid r'"], rule exI[of _ r']) (use a v p d in simp)
  next
    case False
    with q have e: "r' = r" by auto
    then have v: "\<not> IsValid r'" using assms(1) by simp
    have p: "\<not> ?P" using False CP by blast
    show ?thesis
      by (rule exI[of _ "IsValid r'"], rule exI[of _ r']) (use a v p e in simp)
  qed
qed

lemma CalculateUsedTrackSize_ok:
  "end_line span \<le> length (track_collection_sizes st) \<Longrightarrow>
   \<exists>u. CalculateUsedTrackSize st span = Inr u"
  by (simp add: CalculateUsedTrackSize_def EndLine_def Let_def)

lemma highest_eligible_loop_invalid:
  assumes "length (track_collection_openings st) = length (running_positions st)"
    and "length (running_positions st) \<le> length (track_collection_sizes st)"
    and "1 \<le> span_size"
    and "\<forall>c. c + span_size \<le> length (running_positions st) \<and>
             (is_auto_placed masonry_item \<or>
              \<lparr>start_line = c, end_line = c + span_size\<rparr> = initial_span) \<longrightarrow>
             CalculateUsedTrackSize st \<lparr>start_line = c, end_line = c + span_size\<rparr>
               \<noteq> Inr used_track_size \<or>
             \<not> (\<exists>path. length path = span_size \<and>
                   spec_path_fits (track_collection_openings st) S 0 LayoutUnit_Max c path)"
  shows "highest_eligible_loop st masonry_item S initial_span span_size used_track_size
           \<lparr>start_line = c0, end_line = c0 + span_size\<rparr> new_EligibleTrackOpeningPath
         = Inr new_EligibleTrackOpeningPath"
proof (induction "Suc (length (running_positions st)) - (c0 + span_size)" arbitrary: c0
        rule: less_induct)
  case less
  let ?span = "\<lparr>start_line = c0, end_line = c0 + span_size\<rparr>"
  let ?new = new_EligibleTrackOpeningPath
  have nxt: "GridSpan_next ?span = \<lparr>start_line = Suc c0, end_line = Suc c0 + span_size\<rparr>"
    by (simp add: GridSpan_next_def)
  have nv: "\<not> IsValid ?new" by (simp add: IsValid_def new_EligibleTrackOpeningPath_def)
  show ?case
  proof (cases "c0 + span_size \<le> length (running_positions st)")
    case False
    then show ?thesis by (subst highest_eligible_loop.simps) (simp add: EndLine_def)
  next
    case fit: True
    have IH: "highest_eligible_loop st masonry_item S initial_span span_size used_track_size
                (GridSpan_next ?span) ?new = Inr ?new"
      unfolding nxt by (rule less.hyps) (use fit in simp)
    show ?thesis
    proof (cases "\<not> is_auto_placed masonry_item \<and> ?span \<noteq> initial_span")
      case True
      then show ?thesis using fit
        by (subst highest_eligible_loop.simps) (simp add: EndLine_def)
    next
      case cand: False
      obtain u where u: "CalculateUsedTrackSize st ?span = Inr u"
        using CalculateUsedTrackSize_ok[of ?span st] fit assms(2) by auto
      show ?thesis
      proof (cases "u = used_track_size")
        case False
        then show ?thesis using fit cand u IH
          by (subst highest_eligible_loop.simps) (simp add: EndLine_def)
      next
        case same: True
        have ct: "c0 < length (track_collection_openings st)"
          using fit assms(1,3) by simp
        show ?thesis
        proof (cases "track_collection_openings st ! c0 = []")
          case True
          then show ?thesis using fit cand u same ct IH
            by (subst highest_eligible_loop.simps) (simp add: EndLine_def StartLine_def Let_def)
        next
          case nonempty: False
          have sub: "wtf_size_sub span_size (Suc 0) = span_size - 1"
            using assms(3) by (simp add: wtf_size_sub_def)
          have bound: "c0 + (span_size - 1) < length (track_collection_openings st)"
            using fit assms(1,3) by simp
          have nop: "\<not> (\<exists>path. length path = Suc (span_size - 1) \<and>
                   spec_path_fits (track_collection_openings st) S 0 LayoutUnit_Max c0 path)"
            using assms(4) fit cand u same assms(3) by auto
          from Accumulate_char[OF nv bound, of S 0 LayoutUnit_Max] nop
          have acc: "AccumulateTrackOpeningsToAccommodateItem st S 0 LayoutUnit_Max
                       (span_size - 1) c0 ?new = Inr (False, ?new)"
            by auto
          then have acc': "AccumulateTrackOpeningsToAccommodateItem st S 0 LayoutUnit_Max
                       (span_size - Suc 0) c0 ?new = Inr (False, ?new)"
            by simp
          show ?thesis using fit cand u same ct nonempty nv IH
            by (subst highest_eligible_loop.simps)
               (simp add: EndLine_def StartLine_def Let_def sub acc')
        qed
      qed
    qed
  qed
qed

text \<open>
  Claim C6. When for every candidate span (every start line that fits for an auto-placed
  item, the item's own span otherwise) either the track sizes of the span do not add up
  to the item's used track size or no path of openings starting at its first track fits
  the item, \<open>GetEligibleTrackOpeningAndUpdateMasonryItemSpan\<close> returns normally with the
  default start position \<open>LayoutUnit()\<close>, and the openings of every track and the item's
  span are unchanged.
\<close>

theorem GetEligibleTrackOpening_no_path_unchanged:
  assumes "start_line (resolved_span masonry_item) < end_line (resolved_span masonry_item)"
    and "end_line (resolved_span masonry_item) \<le> length (track_collection_sizes st)"
    and "length (track_collection_openings st) = length (running_positions st)"
    and "length (track_collection_sizes st) = length (running_positions st)"
    and "\<forall>c. c + SpanSize (resolved_span masonry_item) \<le> length (running_positions st) \<and>
             (is_auto_placed masonry_item \<or> c = start_line (resolved_span masonry_item)) \<longrightarrow>
             CalculateUsedTrackSize st
                 \<lparr>start_line = c, end_line = c + SpanSize (resolved_span masonry_item)\<rparr>
               \<noteq> CalculateUsedTrackSize st (resolved_span masonry_item) \<or>
             \<not> (\<exists>path. length path = SpanSize (resolved_span masonry_item) \<and>
                   spec_path_fits (track_collection_openings st) S 0 LayoutUnit_Max c path)"
  shows "GetEligibleTrackOpeningAndUpdateMasonryItemSpan st masonry_item S
         = Inr (0, st, masonry_item)"
proof -
  let ?ini = "resolved_span masonry_item"
  let ?n = "SpanSize ?ini"
  have n1: "1 \<le> ?n" using assms(1) by (simp add: SpanSize_def IntegerSpan_def)
  obtain used where used: "CalculateUsedTrackSize st ?ini = Inr used"
    using CalculateUsedTrackSize_ok[OF assms(2)] by blast
  have ini: "?ini = \<lparr>start_line = start_line ?ini, end_line = start_line ?ini + ?n\<rparr>"
    using assms(1) by (simp add: SpanSize_def IntegerSpan_def)
  have nop: "\<forall>c. c + ?n \<le> length (running_positions st) \<and>
             (is_auto_placed masonry_item \<or> \<lparr>start_line = c, end_line = c + ?n\<rparr> = ?ini) \<longrightarrow>
             CalculateUsedTrackSize st \<lparr>start_line = c, end_line = c + ?n\<rparr> \<noteq> Inr used \<or>
             \<not> (\<exists>path. length path = ?n \<and>
                   spec_path_fits (track_collection_openings st) S 0 LayoutUnit_Max c path)"
  proof (intro allI impI)
    fix c
    assume a: "c + ?n \<le> length (running_positions st) \<and>
             (is_auto_placed masonry_item \<or> \<lparr>start_line = c, end_line = c + ?n\<rparr> = ?ini)"
    have "\<lparr>start_line = c, end_line = c + ?n\<rparr> = ?ini \<Longrightarrow> c = start_line ?ini"
      by (metis GridSpan.select_convs(1))
    with a have "c + ?n \<le> length (running_positions st) \<and>
             (is_auto_placed masonry_item \<or> c = start_line ?ini)" by blast
    with assms(5) used
    show "CalculateUsedTrackSize st \<lparr>start_line = c, end_line = c + ?n\<rparr> \<noteq> Inr used \<or>
             \<not> (\<exists>path. length path = ?n \<and>
                   spec_path_fits (track_collection_openings st) S 0 LayoutUnit_Max c path)"
      by simp
  qed
  have le: "length (running_positions st) \<le> length (track_collection_sizes st)"
    using assms(4) by simp
  note L = highest_eligible_loop_invalid[OF assms(3) le n1 nop]
  have loop: "highest_eligible_loop st masonry_item S ?ini ?n used
                (if is_auto_placed masonry_item then TranslatedDefiniteGridSpan 0 ?n else ?ini)
                new_EligibleTrackOpeningPath = Inr new_EligibleTrackOpeningPath"
  proof (cases "is_auto_placed masonry_item")
    case True
    then show ?thesis using L[of 0] by (simp add: TranslatedDefiniteGridSpan_def)
  next
    case False
    then show ?thesis using L[of "start_line ?ini"] ini by simp
  qed
  show ?thesis
    unfolding GetEligibleTrackOpeningAndUpdateMasonryItemSpan_def Let_def used sum.case loop
    by (simp add: IsValid_def new_EligibleTrackOpeningPath_def start_position_of_def)
qed

text \<open>
  Claim C4. Called with a result that is not yet valid, on tracks that exist,
  \<open>AccumulateTrackOpeningsToAccommodateItem\<close> returns true if and only if there is a path of
  openings, one for each of the \<open>num_tracks_remaining + 1\<close> tracks, whose narrowed overlap
  window is at least the item's size on every track. When it returns true, the result's
  start position is the overlap start of the innermost frame of such a path (it is set
  there, where the result is still invalid, and no outer frame changes it), and the
  opening indices of the path have been appended innermost first, one by each frame;
  when it returns false the result is unchanged.
\<close>

theorem AccumulateTrackOpenings_finds_path:
  assumes "\<not> IsValid eligible_track_opening_result"
    and "track_to_check_for_openings + num_tracks_remaining
           < length (track_collection_openings st)"
  shows "\<exists>found r'.
           AccumulateTrackOpeningsToAccommodateItem st item_stacking_axis_contribution
               window_start window_end num_tracks_remaining track_to_check_for_openings
               eligible_track_opening_result = Inr (found, r') \<and>
           (found \<longleftrightarrow>
              (\<exists>path. length path = Suc num_tracks_remaining \<and>
                 spec_path_fits (track_collection_openings st) item_stacking_axis_contribution
                   window_start window_end track_to_check_for_openings path)) \<and>
           (if found
            then \<exists>path. length path = Suc num_tracks_remaining \<and>
                   spec_path_fits (track_collection_openings st) item_stacking_axis_contribution
                     window_start window_end track_to_check_for_openings path \<and>
                   path_start_position r' =
                     Some (spec_path_start (track_collection_openings st) window_start
                             track_to_check_for_openings path) \<and>
                   track_opening_indices r' =
                     track_opening_indices eligible_track_opening_result @ rev path \<and>
                   starting_track_index r' = starting_track_index eligible_track_opening_result
            else r' = eligible_track_opening_result)"
  using assms by (rule Accumulate_char)

theorem AccumulateTrackOpenings_finds_path_witness:
  "\<exists>found r'.
     AccumulateTrackOpeningsToAccommodateItem split_example 10 0 LayoutUnit_Max 1 0
         new_EligibleTrackOpeningPath = Inr (found, r') \<and>
     found \<and>
     spec_path_fits (track_collection_openings split_example) 10 0 LayoutUnit_Max 0 [0, 0] \<and>
     spec_path_start (track_collection_openings split_example) 0 0 [0, 0] = 50 \<and>
     path_start_position r' = Some 50 \<and> track_opening_indices r' = [0, 0]"
proof -
  have h1: "\<not> IsValid new_EligibleTrackOpeningPath"
    by (simp add: IsValid_def new_EligibleTrackOpeningPath_def)
  have h2: "0 + 1 < length (track_collection_openings split_example)"
    by (simp add: split_example_def)
  from AccumulateTrackOpenings_finds_path[OF h1 h2, of 10 0 LayoutUnit_Max]
  obtain found r' where
    a: "AccumulateTrackOpeningsToAccommodateItem split_example 10 0 LayoutUnit_Max 1 0
          new_EligibleTrackOpeningPath = Inr (found, r')"
    by blast
  have e: "AccumulateTrackOpeningsToAccommodateItem split_example 10 0 LayoutUnit_Max 1 0
             new_EligibleTrackOpeningPath
           = Inr (True, \<lparr>starting_track_index = 0, path_start_position = Some 50,
                        track_opening_indices = [0, 0]\<rparr>)"
    by code_simp
  have f: "spec_path_fits (track_collection_openings split_example) 10 0 LayoutUnit_Max 0 [0, 0]"
    by (simp add: split_example_def LayoutUnit_Max_def)
  have s: "spec_path_start (track_collection_openings split_example) 0 0 [0, 0] = 50"
    by (simp add: split_example_def)
  from a e have "found" "path_start_position r' = Some 50" "track_opening_indices r' = [0, 0]"
    by simp_all
  with a f s show ?thesis by blast
qed

theorem GetEligibleTrackOpening_no_path_unchanged_witness:
  "GetEligibleTrackOpeningAndUpdateMasonryItemSpan small_opening_example small_opening_item 10
     = Inr (0, small_opening_example, small_opening_item)"
proof (rule GetEligibleTrackOpening_no_path_unchanged)
  show "start_line (resolved_span small_opening_item) < end_line (resolved_span small_opening_item)"
    by (simp add: small_opening_item_def)
  show "end_line (resolved_span small_opening_item)
          \<le> length (track_collection_sizes small_opening_example)"
    by (simp add: small_opening_item_def small_opening_example_def)
  show "length (track_collection_openings small_opening_example)
          = length (running_positions small_opening_example)"
    by (simp add: small_opening_example_def)
  show "length (track_collection_sizes small_opening_example)
          = length (running_positions small_opening_example)"
    by (simp add: small_opening_example_def)
  have n: "SpanSize (resolved_span small_opening_item) = 1"
    by (simp add: small_opening_item_def SpanSize_def IntegerSpan_def)
  have nofit: "\<not> spec_path_fits (track_collection_openings small_opening_example) 10 0
                   LayoutUnit_Max 0 path" if "length path = 1" for path
  proof -
    from that obtain i where "path = [i]" by (cases path) auto
    then show ?thesis
      by (cases i) (simp_all add: small_opening_example_def LayoutUnit_Max_def)
  qed
  show "\<forall>c. c + SpanSize (resolved_span small_opening_item)
                \<le> length (running_positions small_opening_example) \<and>
             (is_auto_placed small_opening_item \<or> c = start_line (resolved_span small_opening_item)) \<longrightarrow>
             CalculateUsedTrackSize small_opening_example
                 \<lparr>start_line = c, end_line = c + SpanSize (resolved_span small_opening_item)\<rparr>
               \<noteq> CalculateUsedTrackSize small_opening_example (resolved_span small_opening_item) \<or>
             \<not> (\<exists>path. length path = SpanSize (resolved_span small_opening_item) \<and>
                   spec_path_fits (track_collection_openings small_opening_example) 10 0
                     LayoutUnit_Max c path)"
  proof (intro allI impI)
    fix c
    assume "c + SpanSize (resolved_span small_opening_item)
                \<le> length (running_positions small_opening_example) \<and>
             (is_auto_placed small_opening_item \<or> c = start_line (resolved_span small_opening_item))"
    then have c: "c = 0" unfolding n by (simp add: small_opening_example_def)
    have "\<not> (\<exists>path. length path = SpanSize (resolved_span small_opening_item) \<and>
                   spec_path_fits (track_collection_openings small_opening_example) 10 0
                     LayoutUnit_Max c path)"
      unfolding n c using nofit by blast
    then show "CalculateUsedTrackSize small_opening_example
                 \<lparr>start_line = c, end_line = c + SpanSize (resolved_span small_opening_item)\<rparr>
               \<noteq> CalculateUsedTrackSize small_opening_example (resolved_span small_opening_item) \<or>
             \<not> (\<exists>path. length path = SpanSize (resolved_span small_opening_item) \<and>
                   spec_path_fits (track_collection_openings small_opening_example) 10 0
                     LayoutUnit_Max c path)"
      by (rule disjI2)
  qed
qed

end
